theory Spec2Isabelle
  imports Complex_Main "HOL-Library.Char_ord" "HOL-Library.List_Lexorder" "HOL-Library.Log_Nat"
    "HOL-Library.Multiset"
begin

text \<open>
  A model of the parser of \<open>src/bankai/parser/hybrid_parser.py\<close>: the OCR date correction,
  the merchant name cleaning with its cache, the transaction block parser, the extraction
  quality validator, the reconciler of two extractions and the classifier. Each method of
  \<open>HybridPDFParser\<close> is a function of the same name (without a leading underscore) that
  takes the parser as \<open>self\<close>; a method that writes the merchant cache returns the parser
  beside its result. Output by \<open>print\<close> is left out.
\<close>

section \<open>Python strings\<close>

text \<open>
  A Python \<open>str\<close> is modelled as a \<open>string\<close> (a list of 8-bit characters); the character
  predicates and case mappings below are those of Python on ASCII text, which is what the
  statement text, the keyword tables and the patterns of \<open>hybrid_parser.py\<close> consist of.
\<close>

definition is_digit :: "char \<Rightarrow> bool" where
  "is_digit c = (c \<in> set ''0123456789'')"

definition is_upper :: "char \<Rightarrow> bool" where
  "is_upper c = (c \<in> set ''ABCDEFGHIJKLMNOPQRSTUVWXYZ'')"

definition is_lower :: "char \<Rightarrow> bool" where
  "is_lower c = (c \<in> set ''abcdefghijklmnopqrstuvwxyz'')"

definition is_alpha :: "char \<Rightarrow> bool" where
  "is_alpha c = (is_upper c \<or> is_lower c)"

text \<open>\<open>str.isspace\<close> on ASCII: tab, LF, VT, FF, CR, the separators 0x1C..0x1F and space.\<close>

definition is_space :: "char \<Rightarrow> bool" where
  "is_space c = (c \<in> set [CHR 0x09, CHR 0x0A, CHR 0x0B, CHR 0x0C, CHR 0x0D,
                             CHR 0x1C, CHR 0x1D, CHR 0x1E, CHR 0x1F, CHR 0x20])"

definition is_word :: "char \<Rightarrow> bool" where
  "is_word c = (is_alpha c \<or> is_digit c \<or> c = CHR ''_'')"

definition to_upper :: "char \<Rightarrow> char" where
  "to_upper c = (case map_of (zip ''abcdefghijklmnopqrstuvwxyz'' ''ABCDEFGHIJKLMNOPQRSTUVWXYZ'') c
                 of Some d \<Rightarrow> d | None \<Rightarrow> c)"

definition to_lower :: "char \<Rightarrow> char" where
  "to_lower c = (case map_of (zip ''ABCDEFGHIJKLMNOPQRSTUVWXYZ'' ''abcdefghijklmnopqrstuvwxyz'') c
                 of Some d \<Rightarrow> d | None \<Rightarrow> c)"

definition upper :: "string \<Rightarrow> string" where
  "upper s = map to_upper s"

definition lower :: "string \<Rightarrow> string" where
  "lower s = map to_lower s"

definition strip :: "string \<Rightarrow> string" where
  "strip s = rev (dropWhile is_space (rev (dropWhile is_space s)))"

text \<open>\<open>s.split(sep)\<close> for a one-character separator: never empty, keeps empty fields.\<close>

fun split_on :: "char \<Rightarrow> string \<Rightarrow> string list" where
  "split_on sep [] = [[]]"
| "split_on sep (c # cs) =
     (if c = sep then [] # split_on sep cs
      else (case split_on sep cs of [] \<Rightarrow> [[c]] | p # ps \<Rightarrow> (c # p) # ps))"

text \<open>\<open>s.split()\<close>: split at runs of whitespace, no empty fields.\<close>

fun split_ws_acc :: "string \<Rightarrow> string \<Rightarrow> string list" where
  "split_ws_acc acc [] = (if acc = [] then [] else [rev acc])"
| "split_ws_acc acc (c # cs) =
     (if is_space c then (if acc = [] then split_ws_acc [] cs else rev acc # split_ws_acc [] cs)
      else split_ws_acc (c # acc) cs)"

definition split_ws :: "string \<Rightarrow> string list" where
  "split_ws s = split_ws_acc [] s"

fun join :: "string \<Rightarrow> string list \<Rightarrow> string" where
  "join sep [] = []"
| "join sep [p] = p"
| "join sep (p # q # ps) = p @ sep @ join sep (q # ps)"

text \<open>\<open>sub in s\<close> on strings.\<close>

fun contains :: "string \<Rightarrow> string \<Rightarrow> bool" where
  "contains [] sub = (sub = [])"
| "contains (c # cs) sub = (take (length sub) (c # cs) = sub \<or> contains cs sub)"

definition startswith :: "string \<Rightarrow> string \<Rightarrow> bool" where
  "startswith s p = (take (length p) s = p)"

definition endswith :: "string \<Rightarrow> string \<Rightarrow> bool" where
  "endswith s p = (length p \<le> length s \<and> drop (length s - length p) s = p)"

text \<open>\<open>str.isupper\<close>: at least one cased character and no lower-case one.\<close>

definition isupper :: "string \<Rightarrow> bool" where
  "isupper s = ((\<exists>c \<in> set s. is_upper c) \<and> (\<forall>c \<in> set s. \<not> is_lower c))"

text \<open>\<open>str.title\<close>: a letter after a letter is lowered, any other letter is raised.\<close>

fun title_from :: "bool \<Rightarrow> string \<Rightarrow> string" where
  "title_from prev [] = []"
| "title_from prev (c # cs) =
     (if is_alpha c then (if prev then to_lower c else to_upper c) # title_from True cs
      else c # title_from False cs)"

definition title :: "string \<Rightarrow> string" where
  "title s = title_from False s"

subsection \<open>Integers and their decimal text\<close>

definition digit_val :: "char \<Rightarrow> nat" where
  "digit_val c = (case map_of (zip ''0123456789'' [0, 1, 2, 3, 4, 5, 6, 7, 8, 9]) c
                  of Some d \<Rightarrow> d | None \<Rightarrow> 0)"

definition digits_value :: "string \<Rightarrow> nat" where
  "digits_value ds = foldl (\<lambda>a c. 10 * a + digit_val c) 0 ds"

text \<open>
  The digits part accepted by \<open>int(s)\<close>: decimal digits, with single underscores allowed
  between digits only.
\<close>

definition valid_int_body :: "string \<Rightarrow> bool" where
  "valid_int_body b =
     (b \<noteq> [] \<and> (\<forall>c \<in> set b. is_digit c \<or> c = CHR ''_'')
      \<and> hd b \<noteq> CHR ''_'' \<and> last b \<noteq> CHR ''_'' \<and> \<not> contains b ''__'')"

text \<open>
  \<open>int(s)\<close>: surrounding whitespace and one sign are accepted; \<open>None\<close> is ValueError. The
  whitespace that \<open>int\<close> skips in ASCII text is tab, LF, VT, FF, CR and space only: unlike
  \<open>str.strip\<close> it does not skip the separators 0x1C..0x1F (\<open>int('\x1c42')\<close> is a ValueError).
  A text of more than \<open>max_str_digits\<close> digits is refused (the default limit of CPython since
  3.11, \<open>sys.get_int_max_str_digits()\<close>); underscores are not counted.
\<close>

definition is_int_space :: "char \<Rightarrow> bool" where
  "is_int_space c = (c \<in> set [CHR 0x09, CHR 0x0A, CHR 0x0B, CHR 0x0C, CHR 0x0D, CHR 0x20])"

definition max_str_digits :: nat where
  "max_str_digits = 4300"

definition py_int :: "string \<Rightarrow> int option" where
  "py_int s =
     (let t = rev (dropWhile is_int_space (rev (dropWhile is_int_space s)));
          neg = (t \<noteq> [] \<and> hd t = CHR ''-'');
          b = (if t \<noteq> [] \<and> (hd t = CHR ''-'' \<or> hd t = CHR ''+'') then tl t else t);
          digits = filter (\<lambda>c. c \<noteq> CHR ''_'') b
      in if valid_int_body b \<and> length digits \<le> max_str_digits
         then Some ((if neg then - 1 else 1) * int (digits_value digits))
         else None)"

fun str_nat :: "nat \<Rightarrow> string" where
  "str_nat n = (if n < 10 then [''0123456789'' ! n]
                else str_nat (n div 10) @ [''0123456789'' ! (n mod 10)])"

declare str_nat.simps [simp del]

definition str_int :: "int \<Rightarrow> string" where
  "str_int i = (if i < 0 then CHR ''-'' # str_nat (nat (- i)) else str_nat (nat i))"

text \<open>\<open>s.zfill(w)\<close> for an unsigned \<open>s\<close>.\<close>

definition zfill :: "nat \<Rightarrow> string \<Rightarrow> string" where
  "zfill w s = replicate (w - length s) CHR ''0'' @ s"

section \<open>OCR date correction\<close>

text \<open>The table \<open>corrections\<close> of \<open>_fix_ocr_date_errors\<close>.\<close>

definition corrections :: "(int \<times> int) list" where
  "corrections = [(42, 12), (41, 11), (40, 10), (14, 11), (13, 11)]"

text \<open>
  \<open>_fix_ocr_date_errors\<close>. A \<open>ValueError\<close> of \<open>int(parts[0])\<close> is caught by the source and
  leads to the final \<open>return date_str\<close>.
\<close>

definition fix_ocr_date_errors :: "string \<Rightarrow> string" where
  "fix_ocr_date_errors date_str =
     (if date_str = [] \<or> CHR ''/'' \<notin> set date_str then date_str
      else
        let parts = split_on CHR ''/'' date_str in
        if length parts < 2 then date_str
        else
          (case py_int (hd parts) of
             None \<Rightarrow> date_str
           | Some month \<Rightarrow>
               if month > 12 then
                 (case map_of corrections month of
                    Some corrected_month \<Rightarrow>
                      join ''/'' (zfill (if month \<ge> 10 then 2 else 1) (str_int corrected_month) # tl parts)
                  | None \<Rightarrow>
                      if month div 10 > 1 then
                        (let second_digit = month mod 10 in
                         if second_digit \<le> 2
                         then join ''/'' (str_int (10 + second_digit) # tl parts)
                         else date_str)
                      else date_str)
               else date_str))"

section \<open>Regular expressions\<close>

text \<open>
  The patterns of the parser are Python \<open>re\<close> patterns. They are modelled by a backtracking
  matcher with the semantics of \<open>re\<close>: alternatives are tried from the left, \<open>*\<close>, \<open>+\<close>,
  \<open>?\<close> and \<open>{m,n}\<close> are greedy, \<open>*?\<close> is lazy, and the first way to match wins. The matcher
  returns every way to match in that order of preference.
\<close>

datatype re =
    Cls "char \<Rightarrow> bool"
  | Eps
  | Seq re re
  | Alt re re
  | Star re
  | Lazy re
  | Bol
  | Eol
  | WordB
  | Look re
  | Grp nat re

text \<open>
  A position in the subject string: the characters already passed (last one first), the
  characters still to come, and the text captured by the groups closed so far.
\<close>

record mstate =
  seen :: string
  rest :: string
  groups :: "(nat \<times> string) list"

primrec star_greedy :: "(mstate \<Rightarrow> mstate list) \<Rightarrow> nat \<Rightarrow> mstate \<Rightarrow> mstate list" where
  "star_greedy f 0 st = [st]"
| "star_greedy f (Suc n) st =
     concat (map (star_greedy f n) (filter (\<lambda>s. length (rest s) < length (rest st)) (f st))) @ [st]"

primrec star_lazy :: "(mstate \<Rightarrow> mstate list) \<Rightarrow> nat \<Rightarrow> mstate \<Rightarrow> mstate list" where
  "star_lazy f 0 st = [st]"
| "star_lazy f (Suc n) st =
     st # concat (map (star_lazy f n) (filter (\<lambda>s. length (rest s) < length (rest st)) (f st)))"

text \<open>With \<open>re.IGNORECASE\<close> a character matches a class if it or its other case is in it.\<close>

definition cls_match :: "bool \<Rightarrow> (char \<Rightarrow> bool) \<Rightarrow> char \<Rightarrow> bool" where
  "cls_match ic p c = (if ic then p c \<or> p (to_lower c) \<or> p (to_upper c) else p c)"

definition at_word_boundary :: "mstate \<Rightarrow> bool" where
  "at_word_boundary st =
     ((case seen st of [] \<Rightarrow> False | c # _ \<Rightarrow> is_word c)
      \<noteq> (case rest st of [] \<Rightarrow> False | c # _ \<Rightarrow> is_word c))"

text \<open>
  \<open>ms ic r st\<close>: the positions at which a match of \<open>r\<close> started at \<open>st\<close> can end, best first.
  \<open>Bol\<close> is \<open>^\<close> and \<open>Eol\<close> is \<open>$\<close> without \<open>re.MULTILINE\<close> (the end, or just before a final
  newline); \<open>WordB\<close> is \<open>\b\<close>; \<open>Look\<close> is a lookahead \<open>(?=...)\<close>; \<open>Grp n\<close> is the n-th
  capturing group.
\<close>

fun ms :: "bool \<Rightarrow> re \<Rightarrow> mstate \<Rightarrow> mstate list" where
  "ms ic (Cls p) st =
     (case rest st of [] \<Rightarrow> []
      | c # cs \<Rightarrow> if cls_match ic p c then [st\<lparr>seen := c # seen st, rest := cs\<rparr>] else [])"
| "ms ic Eps st = [st]"
| "ms ic (Seq r1 r2) st = concat (map (ms ic r2) (ms ic r1 st))"
| "ms ic (Alt r1 r2) st = ms ic r1 st @ ms ic r2 st"
| "ms ic (Star r) st = star_greedy (ms ic r) (length (rest st)) st"
| "ms ic (Lazy r) st = star_lazy (ms ic r) (length (rest st)) st"
| "ms ic Bol st = (if seen st = [] then [st] else [])"
| "ms ic Eol st = (if rest st = [] \<or> rest st = [CHR 0x0A] then [st] else [])"
| "ms ic WordB st = (if at_word_boundary st then [st] else [])"
| "ms ic (Look r) st = (case ms ic r st of [] \<Rightarrow> [] | _ # _ \<Rightarrow> [st])"
| "ms ic (Grp n r) st =
     map (\<lambda>s. s\<lparr>groups := (n, rev (take (length (seen s) - length (seen st)) (seen s))) # groups s\<rparr>)
         (ms ic r st)"

subsection \<open>Pattern syntax\<close>

definition chr_re :: "char \<Rightarrow> re" where
  "chr_re c = Cls (\<lambda>x. x = c)"

definition one_of :: "string \<Rightarrow> re" where
  "one_of s = Cls (\<lambda>x. x \<in> set s)"

definition lit :: "string \<Rightarrow> re" where
  "lit s = foldr (\<lambda>c r. Seq (chr_re c) r) s Eps"

definition seqs :: "re list \<Rightarrow> re" where
  "seqs rs = foldr Seq rs Eps"

fun alts :: "re list \<Rightarrow> re" where
  "alts [] = Cls (\<lambda>_. False)"
| "alts [r] = r"
| "alts (r # rs) = Alt r (alts rs)"

definition plus_re :: "re \<Rightarrow> re" where
  "plus_re r = Seq r (Star r)"

definition opt_re :: "re \<Rightarrow> re" where
  "opt_re r = Alt r Eps"

definition rep_re :: "nat \<Rightarrow> re \<Rightarrow> re" where
  "rep_re n r = seqs (replicate n r)"

primrec upto_re :: "nat \<Rightarrow> re \<Rightarrow> re" where
  "upto_re 0 r = Eps"
| "upto_re (Suc n) r = Alt (Seq r (upto_re n r)) Eps"

text \<open>\<open>r{m,n}\<close> and \<open>r{m,}\<close>.\<close>

definition between :: "nat \<Rightarrow> nat \<Rightarrow> re \<Rightarrow> re" where
  "between m n r = Seq (rep_re m r) (upto_re (n - m) r)"

definition atleast :: "nat \<Rightarrow> re \<Rightarrow> re" where
  "atleast m r = Seq (rep_re m r) (Star r)"

text \<open>\<open>\d\<close>, \<open>\s\<close>, \<open>\S\<close>, \<open>\w\<close>, \<open>.\<close> (any character but a newline), \<open>[A-Z]\<close>, \<open>[a-z]\<close>.\<close>

definition dg :: re where "dg = Cls is_digit"
definition sp :: re where "sp = Cls is_space"
definition nsp :: re where "nsp = Cls (\<lambda>c. \<not> is_space c)"
definition wd :: re where "wd = Cls is_word"
definition dot :: re where "dot = Cls (\<lambda>c. c \<noteq> CHR 0x0A)"
definition AZ :: re where "AZ = Cls is_upper"
definition az :: re where "az = Cls is_lower"

subsection \<open>\<open>re.match\<close>, \<open>re.search\<close>, \<open>re.finditer\<close>, \<open>re.sub\<close>\<close>

definition re_match :: "bool \<Rightarrow> re \<Rightarrow> string \<Rightarrow> mstate option" where
  "re_match ic r s =
     (case ms ic r \<lparr>seen = [], rest = s, groups = []\<rparr> of [] \<Rightarrow> None | m # _ \<Rightarrow> Some m)"

text \<open>\<open>m.end()\<close> of a match found by \<open>re.match\<close>, and \<open>m.group(n)\<close> of a group that took part.\<close>

definition m_end :: "mstate \<Rightarrow> nat" where
  "m_end m = length (seen m)"

definition m_group :: "mstate \<Rightarrow> nat \<Rightarrow> string" where
  "m_group m n = (case map_of (groups m) n of Some g \<Rightarrow> g | None \<Rightarrow> [])"

fun search_from :: "bool \<Rightarrow> re \<Rightarrow> string \<Rightarrow> string \<Rightarrow> mstate option" where
  "search_from ic r sn rs =
     (case ms ic r \<lparr>seen = sn, rest = rs, groups = []\<rparr> of
        m # _ \<Rightarrow> Some m
      | [] \<Rightarrow> (case rs of [] \<Rightarrow> None | c # cs \<Rightarrow> search_from ic r (c # sn) cs))"

declare search_from.simps [simp del]

definition re_search :: "bool \<Rightarrow> re \<Rightarrow> string \<Rightarrow> mstate option" where
  "re_search ic r s = search_from ic r [] s"

text \<open>
  The scan shared by \<open>re.finditer\<close> and \<open>re.sub\<close>: matches are taken from the left and do
  not overlap; after an empty match the next match at the same place must not be empty.
  The result lists the text skipped before each match (\<open>Inl\<close>) and the matches (\<open>Inr\<close>).
\<close>

function scan :: "bool \<Rightarrow> re \<Rightarrow> string \<Rightarrow> string \<Rightarrow> bool \<Rightarrow> (char + mstate) list" where
  "scan ic r sn rs adv =
     (case filter (\<lambda>m. \<not> adv \<or> length (rest m) < length rs)
                  (ms ic r \<lparr>seen = sn, rest = rs, groups = []\<rparr>) of
        [] \<Rightarrow> (case rs of [] \<Rightarrow> [] | c # cs \<Rightarrow> Inl c # scan ic r (c # sn) cs False)
      | m # _ \<Rightarrow>
          if length (rest m) < length rs then Inr m # scan ic r (seen m) (rest m) False
          else if adv then [Inr m]
          else Inr m # scan ic r sn rs True)"
  by pat_completeness auto
termination
  by (relation "measure (\<lambda>(ic, r, sn, rs, adv). 2 * length rs + (if adv then 0 else 1))") auto

declare scan.simps [simp del]

definition finditer :: "bool \<Rightarrow> re \<Rightarrow> string \<Rightarrow> mstate list" where
  "finditer ic r s = concat (map (\<lambda>x. case x of Inl _ \<Rightarrow> [] | Inr m \<Rightarrow> [m]) (scan ic r [] s False))"

text \<open>A replacement template: literal text and group references \<open>\1\<close>, \<open>\2\<close>.\<close>

datatype ritem = Txt string | Ref nat

definition expand :: "ritem list \<Rightarrow> mstate \<Rightarrow> string" where
  "expand tpl m = concat (map (\<lambda>i. case i of Txt s \<Rightarrow> s | Ref n \<Rightarrow> m_group m n) tpl)"

definition re_sub :: "bool \<Rightarrow> re \<Rightarrow> ritem list \<Rightarrow> string \<Rightarrow> string" where
  "re_sub ic r tpl s =
     concat (map (\<lambda>x. case x of Inl c \<Rightarrow> [c] | Inr m \<Rightarrow> expand tpl m) (scan ic r [] s False))"

section \<open>Python floats\<close>

text \<open>
  A Python float is an IEEE 754 binary64 number. A finite float is modelled by the rational
  number it denotes, and an operation that yields a float (\<open>float(text)\<close>, \<open>a - b\<close>, \<open>k / n\<close>, a
  literal such as \<open>0.02\<close>) by the exact result rounded by \<open>round64\<close>: to the nearest number
  with a significand of 53 bits, a tie to the even significand. The exponent is not bounded
  in the model: overflow to infinity (beyond \<open>1.8e308\<close>) and the gradual underflow of
  subnormal results (below \<open>2.3e-308\<close>) are left out. The difference of two floats that is
  subnormal is exact, and \<open>round64\<close> returns it unchanged.

  \<open>flog2 a\<close> is the exponent \<open>e\<close> with \<open>2^e \<le> a < 2^(e+1)\<close>, for \<open>a > 0\<close>.
\<close>

definition flog2 :: "rat \<Rightarrow> int" where
  "flog2 a = (if 1 \<le> a then bitlen \<lfloor>a\<rfloor> - 1 else - bitlen (\<lceil>1 / a\<rceil> - 1))"

definition round_half_even :: "rat \<Rightarrow> int" where
  "round_half_even n =
     (let f = \<lfloor>n\<rfloor>; r = n - of_int f
      in if r < 1 / 2 then f else if 1 / 2 < r then f + 1 else if even f then f else f + 1)"

definition round64 :: "rat \<Rightarrow> rat" where
  "round64 x =
     (if x = 0 then 0
      else let a = \<bar>x\<bar>; q = 2 powi (flog2 a - 52)
           in sgn x * of_int (round_half_even (a / q)) * q)"

section \<open>Data model\<close>

text \<open>
  Amounts are Python floats, held as the rational they denote. A field that holds \<open>None\<close>
  (the parser stores \<open>None\<close> under \<open>Debits\<close> and \<open>Credits\<close>) is \<open>PyNone\<close>.
\<close>

datatype pynum = PyNone | PyFloat rat

text \<open>
  A transaction is a Python dict with the keys below; a key that is absent is \<open>None\<close>
  in the record (so \<open>Debits t = Some PyNone\<close> is the key \<open>Debits\<close> holding \<open>None\<close>).
\<close>

record tx =
  Transaction_Date :: "string option"
  Place :: "string option"
  Place_Original :: "string option"
  Amount :: "pynum option"
  Balance :: "pynum option"
  Debits :: "pynum option"
  Credits :: "pynum option"
  extraction_method :: "string option"
  manual_review :: "bool option"

definition empty_tx :: tx where
  "empty_tx = \<lparr>Transaction_Date = None, Place = None, Place_Original = None, Amount = None,
               Balance = None, Debits = None, Credits = None, extraction_method = None,
               manual_review = None\<rparr>"

text \<open>The truth value of a dict: it has at least one key.\<close>

definition tx_truthy :: "tx \<Rightarrow> bool" where
  "tx_truthy t =
     (Transaction_Date t \<noteq> None \<or> Place t \<noteq> None \<or> Place_Original t \<noteq> None \<or> Amount t \<noteq> None
      \<or> Balance t \<noteq> None \<or> Debits t \<noteq> None \<or> Credits t \<noteq> None \<or> extraction_method t \<noteq> None
      \<or> manual_review t \<noteq> None)"

text \<open>
  The parser object: its keyword tables, whether the language-model service answered at
  start-up, the merchant cache (the only field that is written after start-up), and what
  the service would answer. \<open>llm_merchant_answer merchant amount date\<close> is the value that
  \<open>llm_clean_merchant_name\<close> computes from the three prompts when the service is
  available (the merchant itself if no answer survives); \<open>llm_classify_answer\<close> is the
  value of \<open>llm_classify_transaction\<close> in that case.
\<close>

record parser =
  income_keywords :: "string list"
  transfer_keywords :: "string list"
  payment_apps :: "string list"
  llm_available :: bool
  merchant_cache :: "string \<rightharpoonup> string"
  llm_merchant_answer :: "string \<Rightarrow> pynum \<Rightarrow> string option \<Rightarrow> string"
  llm_classify_answer :: "string \<Rightarrow> pynum \<Rightarrow> string"

definition llm_clean_merchant_name :: "parser \<Rightarrow> string \<Rightarrow> pynum \<Rightarrow> string option \<Rightarrow> string" where
  "llm_clean_merchant_name self merchant amount date =
     (if \<not> llm_available self then merchant else llm_merchant_answer self merchant amount date)"

definition llm_classify_transaction :: "parser \<Rightarrow> string \<Rightarrow> pynum \<Rightarrow> string" where
  "llm_classify_transaction self place amount =
     (if \<not> llm_available self then ''expense'' else llm_classify_answer self place amount)"

section \<open>Merchant name cleaning\<close>

text \<open>A rewrite \<open>name = re.sub(pattern, repl, name)\<close>: the flag \<open>re.IGNORECASE\<close>, the pattern, the replacement.\<close>

type_synonym rewrite = "bool \<times> re \<times> ritem list"

definition apply_rewrites :: "rewrite list \<Rightarrow> string \<Rightarrow> string" where
  "apply_rewrites rws name = foldl (\<lambda>n (ic, r, tpl). re_sub ic r tpl n) name rws"

text \<open>\<open>[A-Z0-9]\<close>, \<open>[a-f0-9]\<close>, \<open>[\d,]\<close>\<close>

definition AZ09 :: re where "AZ09 = Cls (\<lambda>c. is_upper c \<or> is_digit c)"
definition af09 :: re where "af09 = Cls (\<lambda>c. c \<in> set ''abcdef'' \<or> is_digit c)"
definition dg_comma :: re where "dg_comma = Cls (\<lambda>c. is_digit c \<or> c = CHR '','')"

text \<open>\<open>^\$[\d,]+\.?\d*\s+AT\s+\d{1,2}:\d{2}\<close>\<close>

definition atm_pattern :: re where
  "atm_pattern = seqs [Bol, chr_re CHR ''$'', plus_re dg_comma, opt_re (chr_re CHR ''.''), Star dg,
                       plus_re sp, lit ''AT'', plus_re sp, between 1 2 dg, chr_re CHR '':'', rep_re 2 dg]"

text \<open>The rewrites of \<open>_clean_merchant_name\<close> from "Remove card numbers" to "Remove payment reference numbers".\<close>

definition noise_rewrites_1 :: "rewrite list" where
  \<open>noise_rewrites_1 = [
     \<comment> \<open>\<open>\bXX+\d{4}\b\<close>\<close>
     (False, seqs [WordB, chr_re CHR ''X'', plus_re (chr_re CHR ''X''), rep_re 4 dg, WordB], []),
     \<comment> \<open>\<open>^(Gino|Jaison|jazionn)\s+\<close>, IGNORECASE\<close>
     (True, seqs [Bol, Grp 1 (alts [lit ''Gino'', lit ''Jaison'', lit ''jazionn'']), plus_re sp], []),
     \<comment> \<open>\<open>^(Payment\.ACH|Payment\.|ACH\s+)\<close>, IGNORECASE\<close>
     (True, seqs [Bol, Grp 1 (alts [lit ''Payment.ACH'', lit ''Payment.'', Seq (lit ''ACH'') (plus_re sp)])], []),
     \<comment> \<open>\<open>^[=\-><]\s+\<close>\<close>
     (False, seqs [Bol, one_of ''=-><'', plus_re sp], []),
     \<comment> \<open>\<open>^(RECUR\.?\s*PURCHASE\.?\s*|POS\s+(?:PURCHASE\s+)?AT\s+|PURCHASE\s+AT\s+)\<close>, IGNORECASE\<close>
     (True, seqs [Bol, Grp 1 (alts [
          seqs [lit ''RECUR'', opt_re (chr_re CHR ''.''), Star sp, lit ''PURCHASE'', opt_re (chr_re CHR ''.''), Star sp],
          seqs [lit ''POS'', plus_re sp, opt_re (Seq (lit ''PURCHASE'') (plus_re sp)), lit ''AT'', plus_re sp],
          seqs [lit ''PURCHASE'', plus_re sp, lit ''AT'', plus_re sp]])], []),
     \<comment> \<open>\<open>\s+RECUR\s+PURCHASE\.?\s*\<close> to a space, IGNORECASE\<close>
     (True, seqs [plus_re sp, lit ''RECUR'', plus_re sp, lit ''PURCHASE'', opt_re (chr_re CHR ''.''), Star sp],
      [Txt '' '']),
     \<comment> \<open>\<open>^\d{1,2}\s+\<close>\<close>
     (False, seqs [Bol, between 1 2 dg, plus_re sp], []),
     \<comment> \<open>\<open>(\w)(\d{3,})(?=\s|$)\<close> to \<open>\1\<close>\<close>
     (False, seqs [Grp 1 wd, Grp 2 (atleast 3 dg), Look (Alt sp Eol)], [Ref 1]),
     \<comment> \<open>\<open>\s+[A-Z0-9]{1,2}$\<close>\<close>
     (False, seqs [plus_re sp, between 1 2 AZ09, Eol], []),
     \<comment> \<open>\<open>\s*\d{3}-\d{3}-\d{4}\<close>\<close>
     (False, seqs [Star sp, rep_re 3 dg, chr_re CHR ''-'', rep_re 3 dg, chr_re CHR ''-'', rep_re 4 dg], []),
     \<comment> \<open>\<open>\s+\d{10}\b\<close>\<close>
     (False, seqs [plus_re sp, rep_re 10 dg, WordB], []),
     \<comment> \<open>\<open>\s+\d{3}-\d{7}\<close>\<close>
     (False, seqs [plus_re sp, rep_re 3 dg, chr_re CHR ''-'', rep_re 7 dg], []),
     \<comment> \<open>\<open>\s+[A-Z0-9]{10,}\b\<close>\<close>
     (False, seqs [plus_re sp, atleast 10 AZ09, WordB], []),
     \<comment> \<open>\<open>\s+[a-f0-9]{8,}\b\<close>\<close>
     (False, seqs [plus_re sp, atleast 8 af09, WordB], []),
     \<comment> \<open>\<open>\s+\d{8,}\b\<close>\<close>
     (False, seqs [plus_re sp, atleast 8 dg, WordB], [])]\<close>

text \<open>
  The table \<open>processor_patterns\<close>, in the order of the dict: the pattern (matched at the
  start, IGNORECASE) and the action with its value.
\<close>

datatype action = Return string | Extract re | Strip re

definition processor_patterns :: "(re \<times> action) list" where
  \<open>processor_patterns = [
     \<comment> \<open>\<open>^SQSP\s*\*\<close>\<close>
     (seqs [Bol, lit ''SQSP'', Star sp, chr_re CHR ''*''], Return ''Squarespace''),
     \<comment> \<open>\<open>^CASH\s+APP\s*\*\<close>\<close>
     (seqs [Bol, lit ''CASH'', plus_re sp, lit ''APP'', Star sp, chr_re CHR ''*''], Return ''Cash App''),
     \<comment> \<open>\<open>^BP[#\d]\<close>\<close>
     (seqs [Bol, lit ''BP'', Cls (\<lambda>c. c = CHR ''#'' \<or> is_digit c)], Return ''BP''),
     \<comment> \<open>\<open>^SQ\s*\*\<close>, extract \<open>SQ\s*\*\s*([A-Z][A-Z0-9&\s]+)\<close>\<close>
     (seqs [Bol, lit ''SQ'', Star sp, chr_re CHR ''*''],
      Extract (seqs [lit ''SQ'', Star sp, chr_re CHR ''*'', Star sp,
                     Grp 1 (Seq AZ (plus_re (Cls (\<lambda>c. is_upper c \<or> is_digit c \<or> c = CHR ''&'' \<or> is_space c))))])),
     \<comment> \<open>\<open>^WL\s*\*\<close>, strip \<open>^WL\s*\*\s*\<close>\<close>
     (seqs [Bol, lit ''WL'', Star sp, chr_re CHR ''*''],
      Strip (seqs [Bol, lit ''WL'', Star sp, chr_re CHR ''*'', Star sp]))]\<close>

text \<open>
  The loop over \<open>processor_patterns\<close>: \<open>Inl v\<close> is the immediate \<open>return v\<close>, \<open>Inr name\<close> is
  the name with which the function goes on (after \<open>break\<close>, or when no pattern matched).
\<close>

fun process_processors :: "(re \<times> action) list \<Rightarrow> string \<Rightarrow> string + string" where
  "process_processors [] name = Inr name"
| "process_processors ((pattern, act) # others) name =
     (if re_match True pattern name \<noteq> None then
        (case act of
           Return v \<Rightarrow> Inl v
         | Extract v \<Rightarrow>
             (case re_search True v name of
                Some m \<Rightarrow> Inr (strip (m_group m 1))
              | None \<Rightarrow> Inr (strip (re_sub True pattern [] name)))
         | Strip v \<Rightarrow> Inr (strip (re_sub True v [] name)))
      else process_processors others name)"

text \<open>The rewrites from "Remove other processor prefixes" to "Remove OIL suffix".\<close>

definition noise_rewrites_2 :: "rewrite list" where
  \<open>noise_rewrites_2 = [
     \<comment> \<open>\<open>\s+WEB[ _](?:PMTS?|PAY)\s+\S+\<close>, IGNORECASE\<close>
     (True, seqs [plus_re sp, lit ''WEB'', one_of '' _'',
                  Alt (Seq (lit ''PMT'') (opt_re (chr_re CHR ''S''))) (lit ''PAY''), plus_re sp, plus_re nsp], []),
     \<comment> \<open>\<open>\s*#\s*\d+\<close>\<close>
     (False, seqs [Star sp, chr_re CHR ''#'', Star sp, plus_re dg], []),
     \<comment> \<open>\<open>[-\s]+[A-Z]{5,}$\<close>\<close>
     (False, seqs [plus_re (Cls (\<lambda>c. c = CHR ''-'' \<or> is_space c)), atleast 5 AZ, Eol], []),
     \<comment> \<open>\<open>\s+\d{3}-\d{7}$\<close>\<close>
     (False, seqs [plus_re sp, rep_re 3 dg, chr_re CHR ''-'', rep_re 7 dg, Eol], []),
     \<comment> \<open>\<open>%[^%]+%\<close>\<close>
     (False, seqs [chr_re CHR ''%'', plus_re (Cls (\<lambda>c. c \<noteq> CHR ''%'')), chr_re CHR ''%''], []),
     \<comment> \<open>\<open>\s+\d{4,5}$\<close>\<close>
     (False, seqs [plus_re sp, between 4 5 dg, Eol], []),
     \<comment> \<open>\<open>\s+[A-Z][a-z]+\s+[A-Z]{2}$\<close>\<close>
     (False, seqs [plus_re sp, AZ, plus_re az, plus_re sp, rep_re 2 AZ, Eol], []),
     \<comment> \<open>\<open>\s+[A-Z]{2}\s*\d*$\<close>\<close>
     (False, seqs [plus_re sp, rep_re 2 AZ, Star sp, Star dg, Eol], []),
     \<comment> \<open>\<open>^(?:TST|SQ|PAW)\s*-\s*\<close>, IGNORECASE\<close>
     (True, seqs [Bol, alts [lit ''TST'', lit ''SQ'', lit ''PAW''], Star sp, chr_re CHR ''-'', Star sp], []),
     \<comment> \<open>\<open>\s+\d+\s+[A-Z]{2}\s+\d+$\<close>\<close>
     (False, seqs [plus_re sp, plus_re dg, plus_re sp, rep_re 2 AZ, plus_re sp, plus_re dg, Eol], []),
     \<comment> \<open>\<open>\s+\d{3}-\d+$\<close>\<close>
     (False, seqs [plus_re sp, rep_re 3 dg, chr_re CHR ''-'', plus_re dg, Eol], []),
     \<comment> \<open>\<open>\s+OIL$\<close>, IGNORECASE\<close>
     (True, seqs [plus_re sp, lit ''OIL'', Eol], [])]\<close>

text \<open>"Handle asterisk processor codes": \<open>name.split('*', 1)\<close> always has two parts here.\<close>

definition join_asterisk :: "string \<Rightarrow> string" where
  "join_asterisk name =
     (if CHR ''*'' \<in> set name
      then strip (takeWhile (\<lambda>c. c \<noteq> CHR ''*'') name) @ '' ''
           @ strip (tl (dropWhile (\<lambda>c. c \<noteq> CHR ''*'') name))
      else name)"

text \<open>The rewrites from "Remove domain patterns" to "Remove short trailing codes".\<close>

definition noise_rewrites_3 :: "rewrite list" where
  \<open>noise_rewrites_3 = [
     \<comment> \<open>\<open>\s+Help\.\w+\.Com\<close>, IGNORECASE\<close>
     (True, seqs [plus_re sp, lit ''Help.'', plus_re wd, lit ''.Com''], []),
     \<comment> \<open>\<open>\s+Hwy\s+\d+\<close>, IGNORECASE\<close>
     (True, seqs [plus_re sp, lit ''Hwy'', plus_re sp, plus_re dg], []),
     \<comment> \<open>\<open>\s+-\s*$\<close>\<close>
     (False, seqs [plus_re sp, chr_re CHR ''-'', Star sp, Eol], []),
     \<comment> \<open>\<open>^\s*-\s+\<close>\<close>
     (False, seqs [Bol, Star sp, chr_re CHR ''-'', plus_re sp], []),
     \<comment> \<open>\<open>\s+[A-Z]\d+[A-Z]$\<close>\<close>
     (False, seqs [plus_re sp, AZ, plus_re dg, AZ, Eol], []),
     \<comment> \<open>\<open>\s+[A-Z]{1,2}$\<close>\<close>
     (False, seqs [plus_re sp, between 1 2 AZ, Eol], [])]\<close>

text \<open>\<open>([a-z])([A-Z])\<close> to \<open>\1 \2\<close>, and \<open>([A-Z])AND([A-Z])\<close> to \<open>\1 AND \2\<close>.\<close>

definition split_camel :: rewrite where
  "split_camel = (False, Seq (Grp 1 az) (Grp 2 AZ), [Ref 1, Txt '' '', Ref 2])"

definition split_and :: rewrite where
  "split_and = (False, seqs [Grp 1 AZ, lit ''AND'', Grp 2 AZ], [Ref 1, Txt '' AND '', Ref 2])"

text \<open>"Decompress concatenated business names".\<close>

definition decompress :: "string \<Rightarrow> string" where
  "decompress name =
     (if length name > 15 \<and> isupper name \<and> CHR '' '' \<notin> set (take 10 name)
      then apply_rewrites [split_and, split_camel] name
      else name)"

text \<open>Phase 1 after the processor table, up to the model-assisted phase.\<close>

definition noise_removal_tail :: "string \<Rightarrow> string" where
  "noise_removal_tail name =
     (let name = apply_rewrites noise_rewrites_2 name;
          name = join_asterisk name;
          name = apply_rewrites noise_rewrites_3 name;
          name = strip (re_sub False (plus_re sp) [Txt '' ''] name);
          name = re_sub False (seqs [plus_re sp, plus_re dg, Eol]) [] name
      in decompress name)"

text \<open>Phase 3, "smart title case".\<close>

definition acronyms :: "string list" where
  "acronyms = [''ATM'', ''POS'', ''ACH'', ''USA'', ''LLC'', ''INC'', ''BP'', ''ND'', ''MN'']"

definition title_word :: "string \<Rightarrow> string" where
  "title_word word =
     (if upper word \<in> set acronyms then upper word
      else if length word > 2 \<and> isupper word then title word
      else word)"

definition smart_title_case :: "string \<Rightarrow> string \<Rightarrow> string" where
  "smart_title_case original name =
     (let name = apply_rewrites [split_camel] name;
          name = join '' '' (map title_word (split_ws name))
      in if length name < 3 then original else strip name)"

text \<open>\<open>_clean_merchant_name\<close>\<close>

definition clean_merchant_name :: "parser \<Rightarrow> string \<Rightarrow> string" where
  "clean_merchant_name self name =
     (if name = [] \<or> length name < 3 then name
      else if re_match False atm_pattern name \<noteq> None then ''ATM Withdrawal''
      else
        (case process_processors processor_patterns (apply_rewrites noise_rewrites_1 name) of
           Inl v \<Rightarrow> v
         | Inr name1 \<Rightarrow>
             (let name2 = noise_removal_tail name1;
                  cleaned = (if llm_available self \<and> length name2 > 3
                             then llm_clean_merchant_name self name2 PyNone None else [])
              in if llm_available self \<and> length name2 > 3
                    \<and> cleaned \<noteq> [] \<and> cleaned \<noteq> name2 \<and> length cleaned \<ge> 3
                 then cleaned
                 else smart_title_case name name2)))"

subsection \<open>Normalising a model answer\<close>

text \<open>The list \<open>artifacts\<close> of \<open>_normalize_llm_output\<close>; every pattern is used with IGNORECASE.\<close>

definition llm_artifacts :: "re list" where
  \<open>llm_artifacts = [
     \<comment> \<open>\<open>\(No location information.*?\)\<close>\<close>
     seqs [chr_re CHR ''('', lit ''No location information'', Lazy dot, chr_re CHR '')''],
     \<comment> \<open>\<open>\(No location.*?\)\<close>\<close>
     seqs [chr_re CHR ''('', lit ''No location'', Lazy dot, chr_re CHR '')''],
     \<comment> \<open>\<open>No location information provided.*\<close>\<close>
     seqs [lit ''No location information provided'', Star dot],
     \<comment> \<open>\<open>Yes, the transaction name is:?\<close>\<close>
     seqs [lit ''Yes, the transaction name is'', opt_re (chr_re CHR '':'')],
     \<comment> \<open>\<open>The transaction name is:?\<close>\<close>
     seqs [lit ''The transaction name is'', opt_re (chr_re CHR '':'')],
     lit ''A fun one!'',
     lit ''A fun transaction!'',
     lit ''the transaction details:'']\<close>

definition extra_words :: "string list" where
  "extra_words = [''Purchase'', ''Supercenter'', ''Store'', ''Location'', ''Branch'',
                  ''Retailer'', ''LLC'', ''Inc'', ''Corporation'', ''Company'']"

text \<open>\<open>str.isalpha\<close>\<close>

definition isalpha :: "string \<Rightarrow> bool" where
  "isalpha s = (s \<noteq> [] \<and> (\<forall>c \<in> set s. is_alpha c))"

definition comma_or_space :: re where
  "comma_or_space = Cls (\<lambda>c. c = CHR '','' \<or> is_space c)"

text \<open>\<open>^[,\s]+|[,\s]+$\<close>\<close>

definition edge_commas :: re where
  "edge_commas = Alt (Seq Bol (plus_re comma_or_space)) (Seq (plus_re comma_or_space) Eol)"

text \<open>\<open>_normalize_llm_output\<close>\<close>

definition normalize_llm_output :: "string \<Rightarrow> string" where
  "normalize_llm_output name0 =
     (if name0 = [] then name0
      else
        let name = foldl (\<lambda>n pattern. re_sub True pattern [] n) name0 llm_artifacts;
            name = strip name;
            name = re_sub False edge_commas [] name;
            name = (if isupper name \<and> length name > 3
                    then (if length name \<le> 4 \<and> isalpha name then name else title name)
                    else name);
            name = (if startswith (upper name) ''THE '' then drop 4 name else name);
            name = (if CHR '' '' \<notin> set name \<and> (\<exists>c \<in> set (drop 1 name). is_upper c)
                    then apply_rewrites [split_camel] name else name);
            name = foldl (\<lambda>n word. if endswith n (CHR '' '' # word)
                                     then strip (take (length n - length word - 1) n) else n)
                         name extra_words
        in strip name)"

subsection \<open>Cleaning with the cache and the transaction context\<close>

text \<open>
  \<open>_clean_merchant_name_with_context\<close>. The method writes \<open>self.merchant_cache\<close>; the model
  returns the parser with the new cache beside the result.
\<close>

definition clean_merchant_name_with_context ::
    "parser \<Rightarrow> string \<Rightarrow> pynum \<Rightarrow> string option \<Rightarrow> string \<times> parser" where
  "clean_merchant_name_with_context self name amount date =
     (if name = [] \<or> length name < 3 then (name, self)
      else
        let original = name;
            cache_key = strip (upper name)
        in case merchant_cache self cache_key of
             Some cached \<Rightarrow> (cached, self)
           | None \<Rightarrow>
               (let name1 = clean_merchant_name self name;
                    use_llm = (llm_available self \<and> length name1 > 3);
                    context_cleaned = (if use_llm then llm_clean_merchant_name self name1 amount date else []);
                    accepted = (use_llm \<and> context_cleaned \<noteq> [] \<and> context_cleaned \<noteq> name1
                                \<and> length context_cleaned \<ge> 3);
                    normalized = normalize_llm_output context_cleaned
                in if accepted \<and> length normalized \<ge> 3
                   then (normalized, self\<lparr>merchant_cache := (merchant_cache self)(cache_key \<mapsto> normalized)\<rparr>)
                   else if name1 \<noteq> original
                   then (name1, self\<lparr>merchant_cache := (merchant_cache self)(cache_key \<mapsto> name1)\<rparr>)
                   else (name1, self)))"

section \<open>Building a transaction\<close>

definition garbage_patterns :: "string list" where
  "garbage_patterns = [''DATE AMOUNT'', ''DESCRIPTION DEBITS CREDITS'', ''POST DATE'', ''TRANS DATE'',
     ''REFERENCE'', ''PAGE'', ''ACCOUNT STATEMENTS'', ''STATEMENT ENDING'', ''CUSTOMER NUMBER'',
     ''CHECKING ACCOUNT'', ''SAVINGS ACCOUNT'', ''DAILY BALANCE'', ''DATE AMOUNT DATE AMOUNT'',
     ''BEGINNING BALANCE'', ''ENDING BALANCE'']"

text \<open>"Assign amounts based on count".\<close>

definition assign_amounts :: "rat list \<Rightarrow> tx \<Rightarrow> tx" where
  "assign_amounts amounts tr =
     (if length amounts = 1 then tr\<lparr>Amount := Some (PyFloat (amounts ! 0))\<rparr>
      else if length amounts = 2
      then tr\<lparr>Amount := Some (PyFloat (amounts ! 0)), Balance := Some (PyFloat (amounts ! 1))\<rparr>
      else if length amounts \<ge> 3
      then tr\<lparr>Debits := Some (if amounts ! 0 > 0 then PyFloat (amounts ! 0) else PyNone),
                  Credits := Some (if amounts ! 1 > 0 then PyFloat (amounts ! 1) else PyNone),
                  Balance := Some (PyFloat (amounts ! 2))\<rparr>
      else tr)"

text \<open>\<open>_build_transaction\<close>: \<open>None\<close> is the rejected block.\<close>

definition build_transaction :: "parser \<Rightarrow> string \<Rightarrow> string \<Rightarrow> rat list \<Rightarrow> tx option \<times> parser" where
  "build_transaction self date description0 amounts =
     (let description = strip (join '' '' (split_ws description0));
          desc_upper = upper description;
          words = split_ws description
      in if \<exists>pattern \<in> set garbage_patterns. contains desc_upper pattern then (None, self)
         else if length words = 1 \<and> length description < 4 then (None, self)
         else if length description < 3 \<or> \<not> (\<exists>c \<in> set description. is_alpha c) then (None, self)
         else
           let original_description = description;
               amount = (case amounts of [] \<Rightarrow> PyNone | a # _ \<Rightarrow> PyFloat a);
               (cleaned, self') = clean_merchant_name_with_context self description amount (Some date);
               tr = empty_tx\<lparr>Transaction_Date := Some date, Place := Some cleaned,
                                Place_Original := Some original_description\<rparr>
           in (Some (assign_amounts amounts tr), self'))"

section \<open>Extraction quality validation\<close>

text \<open>
  The result dict of \<open>validate_transactions\<close>. An issue carries the number that the source
  formats into its message.
\<close>

datatype issue =
    No_transactions_found
  | Only_valid_dates rat
  | Only_valid_amounts rat
  | Only_valid_descriptions rat
  | Very_few_transactions nat
  | Many_duplicates rat

record validation =
  valid :: bool
  score :: int
  transaction_count :: nat
  issues :: "issue list"
  method_used :: "string option"

text \<open>\<open>^\d{1,2}/\d{1,2}/\d{4}$\<close>\<close>

definition full_date_pattern :: re where
  "full_date_pattern = seqs [Bol, between 1 2 dg, chr_re CHR ''/'', between 1 2 dg, chr_re CHR ''/'',
                             rep_re 4 dg, Eol]"

definition has_valid_date :: "tx \<Rightarrow> bool" where
  "has_valid_date t = (case Transaction_Date t of None \<Rightarrow> False
                       | Some d \<Rightarrow> re_match False full_date_pattern d \<noteq> None)"

text \<open>\<open>k in t and t[k] and t[k] > 0\<close>\<close>

definition positive_field :: "pynum option \<Rightarrow> bool" where
  "positive_field v = (case v of Some (PyFloat r) \<Rightarrow> r \<noteq> 0 \<and> r > 0 | _ \<Rightarrow> False)"

definition has_valid_amount :: "tx \<Rightarrow> bool" where
  "has_valid_amount t = (\<exists>v \<in> set [Amount t, Credits t, Debits t]. positive_field v)"

definition has_valid_description :: "tx \<Rightarrow> bool" where
  "has_valid_description t = (case Place t of None \<Rightarrow> False
                              | Some p \<Rightarrow> length p \<ge> 3 \<and> (\<exists>c \<in> set p. is_alpha c))"

text \<open>
  The quotient \<open>k / n\<close> of two Python ints is the float nearest to the exact quotient. The
  thresholds \<open>0.9\<close>, \<open>0.8\<close> and \<open>0.5\<close> of the source are float literals.
\<close>

definition ratio :: "nat \<Rightarrow> nat \<Rightarrow> rat" where
  "ratio k n = round64 (of_nat k / of_nat n)"

definition validate_transactions :: "tx list \<Rightarrow> string \<Rightarrow> validation" where
  "validate_transactions transactions meth =
     (if transactions = [] then
        \<lparr>valid = False, score = 0, transaction_count = 0, issues = [No_transactions_found], method_used = None\<rparr>
      else
        let n = length transactions;
            score0 = (100::int);
            date_ratio = ratio (length (filter has_valid_date transactions)) n;
            score1 = (if date_ratio < round64 (9 / 10) then score0 - 20 else score0);
            issues1 = (if date_ratio < round64 (9 / 10) then [Only_valid_dates date_ratio] else []);
            amount_ratio = ratio (length (filter has_valid_amount transactions)) n;
            score2 = (if amount_ratio < round64 (9 / 10) then score1 - 30 else score1);
            issues2 = (if amount_ratio < round64 (9 / 10) then issues1 @ [Only_valid_amounts amount_ratio] else issues1);
            desc_ratio = ratio (length (filter has_valid_description transactions)) n;
            score3 = (if desc_ratio < round64 (8 / 10) then score2 - 30 else score2);
            issues3 = (if desc_ratio < round64 (8 / 10) then issues2 @ [Only_valid_descriptions desc_ratio] else issues2);
            score4 = (if n < 3 then score3 - 20 else score3);
            issues4 = (if n < 3 then issues3 @ [Very_few_transactions n] else issues3);
            descriptions = map (\<lambda>t. case Place t of Some p \<Rightarrow> p | None \<Rightarrow> []) transactions;
            unique_ratio = (if descriptions \<noteq> [] then ratio (card (set descriptions)) (length descriptions) else 0);
            score5 = (if unique_ratio < round64 (5 / 10) then score4 - 10 else score4);
            issues5 = (if unique_ratio < round64 (5 / 10) then issues4 @ [Many_duplicates unique_ratio] else issues4)
        in \<lparr>valid = (score5 \<ge> 50), score = max 0 score5, transaction_count = n, issues = issues5,
            method_used = Some meth\<rparr>)"

section \<open>Cross-referencing two extractions\<close>

text \<open>The inner function \<open>score_description\<close> of \<open>_select_best_description\<close>.\<close>

definition score_artifacts :: "string list" where
  "score_artifacts = [''PURCHASE'', ''RECUR'', ''WL*'', ''WL '', ''SQ*'', ''TST*'', ''Payment.'',
                      ''Gino '', ''Jaison '', ''XX'', ''POS '', ''ACH '']"

definition score_description :: "string \<Rightarrow> string \<Rightarrow> int" where
  "score_description place original =
     (let score = (100::int);
          score = foldl (\<lambda>s artifact. if contains place artifact \<or> contains (upper place) artifact
                                        then s - 30 else s) score score_artifacts;
          score = (if length place > 40 then score - 20
                   else if length place > 25 then score - 10 else score);
          word_count = length (split_ws place);
          score = (if word_count > 5 then score - 15
                   else if word_count > 4 then score - 5 else score);
          score = (if place \<noteq> [] \<and> is_upper (hd place) then score + 5 else score);
          score = (if place \<noteq> [] \<and> (is_lower (hd place) \<or> is_digit (hd place)) then score - 10 else score);
          score = (if place \<noteq> [] \<and> hd place \<in> set ''=-><'' then score - 20 else score)
      in score)"

definition select_best_description :: "string \<Rightarrow> string \<Rightarrow> string \<Rightarrow> string \<Rightarrow> string" where
  "select_best_description place_a place_b orig_a orig_b =
     (let score_a = score_description place_a orig_a;
          score_b = score_description place_b orig_b
      in if score_a \<ge> score_b then place_a else place_b)"

text \<open>An exception that leaves \<open>cross_reference_transactions\<close>: \<open>float(None)\<close>.\<close>

datatype error = TypeError

definition py_float :: "pynum \<Rightarrow> error + rat" where
  "py_float v = (case v of PyFloat r \<Rightarrow> Inr r | PyNone \<Rightarrow> Inl TypeError)"

text \<open>\<open>t.get('Amount', t.get('Debits', t.get('Credits', 0)))\<close>\<close>

definition match_amount :: "tx \<Rightarrow> pynum" where
  "match_amount t =
     (case Amount t of Some v \<Rightarrow> v
      | None \<Rightarrow> (case Debits t of Some v \<Rightarrow> v
                  | None \<Rightarrow> (case Credits t of Some v \<Rightarrow> v | None \<Rightarrow> PyFloat 0)))"

text \<open>\<open>t.get('Transaction Date', '')\<close> and \<open>t.get('Place', '')\<close>\<close>

definition date_of :: "tx \<Rightarrow> string" where
  "date_of t = (case Transaction_Date t of Some d \<Rightarrow> d | None \<Rightarrow> [])"

definition place_of :: "tx \<Rightarrow> string" where
  "place_of t = (case Place t of Some p \<Rightarrow> p | None \<Rightarrow> [])"

text \<open>
  The inner loop "Look for matching transaction in B" over \<open>enumerate(transactions_b)\<close>:
  the first entry, not yet matched, with the same date and an amount closer than 0.02.
  The dates are compared first, and the amounts are converted only when the dates agree.
\<close>

text \<open>The test \<open>abs(float(amount_a) - float(amount_b)) < 0.02\<close> on two floats.\<close>

definition amounts_close :: "rat \<Rightarrow> rat \<Rightarrow> bool" where
  "amounts_close fa fb = (\<bar>round64 (fa - fb)\<bar> < round64 (2 / 100))"

fun find_match :: "string \<Rightarrow> pynum \<Rightarrow> nat set \<Rightarrow> (nat \<times> tx) list \<Rightarrow> error + (nat \<times> tx) option" where
  "find_match date_a amount_a matched_b [] = Inr None"
| "find_match date_a amount_a matched_b ((idx, trans_b) # bs) =
     (if idx \<in> matched_b then find_match date_a amount_a matched_b bs
      else if date_a = date_of trans_b then
        (case py_float amount_a of
           Inl e \<Rightarrow> Inl e
         | Inr fa \<Rightarrow>
             (case py_float (match_amount trans_b) of
                Inl e \<Rightarrow> Inl e
              | Inr fb \<Rightarrow>
                  if amounts_close fa fb then Inr (Some (idx, trans_b))
                  else find_match date_a amount_a matched_b bs))
      else find_match date_a amount_a matched_b bs)"

definition enumerate_from0 :: "'a list \<Rightarrow> (nat \<times> 'a) list" where
  "enumerate_from0 xs = zip [0..<length xs] xs"

text \<open>\<open>t.get('Place_Original', t.get('Place', ''))\<close>\<close>

definition original_of :: "tx \<Rightarrow> string" where
  "original_of t = (case Place_Original t of Some p \<Rightarrow> p | None \<Rightarrow> place_of t)"

text \<open>The record emitted for a matched pair.\<close>

definition merge_matched :: "parser \<Rightarrow> string \<Rightarrow> string \<Rightarrow> tx \<Rightarrow> tx \<Rightarrow> tx \<times> parser" where
  "merge_matched self method_a method_b trans_a best_match =
     (let place_orig_a = original_of trans_a;
          place_orig_b = original_of best_match;
          selected_original = select_best_description place_orig_a place_orig_b place_orig_a place_orig_b;
          amount = match_amount trans_a;
          date = date_of trans_a;
          (cleaned_place, self') = clean_merchant_name_with_context self selected_original amount (Some date)
      in (trans_a\<lparr>Place := Some cleaned_place, Place_Original := Some selected_original,
                   extraction_method := Some (method_a @ '' (matched with '' @ method_b @ '')'')\<rparr>,
          self'))"

text \<open>
  One turn of the loop "Pass 1" for \<open>trans_a\<close>: the record appended to \<open>merged\<close>, the index
  added to \<open>matched_b\<close> if any, and the parser. A match that is an empty dict is not taken
  by \<open>if best_match:\<close>.
\<close>

definition pass1_step ::
    "parser \<Rightarrow> string \<Rightarrow> string \<Rightarrow> tx list \<Rightarrow> nat set \<Rightarrow> tx \<Rightarrow> error + (tx \<times> nat option \<times> parser)" where
  "pass1_step self method_a method_b transactions_b matched_b trans_a =
     (case find_match (date_of trans_a) (match_amount trans_a) matched_b (enumerate_from0 transactions_b) of
        Inl e \<Rightarrow> Inl e
      | Inr found \<Rightarrow>
          (case found of
             Some (best_match_idx, best_match) \<Rightarrow>
               if tx_truthy best_match then
                 (let (merged_trans, self') = merge_matched self method_a method_b trans_a best_match
                  in Inr (merged_trans, Some best_match_idx, self'))
               else Inr (trans_a\<lparr>extraction_method := Some (method_a @ '' only'')\<rparr>, None, self)
           | None \<Rightarrow> Inr (trans_a\<lparr>extraction_method := Some (method_a @ '' only'')\<rparr>, None, self)))"

text \<open>
  "Pass 1" over \<open>transactions_a\<close>. The result lists, for each element of \<open>transactions_a\<close> in
  order, the record appended to \<open>merged\<close> and the index in \<open>transactions_b\<close> it was merged
  with, if any.
\<close>

fun pass1 ::
    "parser \<Rightarrow> string \<Rightarrow> string \<Rightarrow> tx list \<Rightarrow> nat set \<Rightarrow> tx list
     \<Rightarrow> error + ((tx \<times> nat option) list \<times> nat set \<times> parser)" where
  "pass1 self method_a method_b transactions_b matched_b [] = Inr ([], matched_b, self)"
| "pass1 self method_a method_b transactions_b matched_b (trans_a # as) =
     (case pass1_step self method_a method_b transactions_b matched_b trans_a of
        Inl e \<Rightarrow> Inl e
      | Inr (emitted, idx, self') \<Rightarrow>
          (case pass1 self' method_a method_b transactions_b
                  (case idx of Some i \<Rightarrow> insert i matched_b | None \<Rightarrow> matched_b) as of
             Inl e \<Rightarrow> Inl e
           | Inr (steps, matched_b', self'') \<Rightarrow> Inr ((emitted, idx) # steps, matched_b', self'')))"

text \<open>"Pass 2: Add unmatched transactions from B".\<close>

definition pass2 :: "string \<Rightarrow> tx list \<Rightarrow> nat set \<Rightarrow> tx list" where
  "pass2 method_b transactions_b matched_b =
     map (\<lambda>(idx, trans_b). trans_b\<lparr>extraction_method := Some (method_b @ '' only'')\<rparr>)
         (filter (\<lambda>(idx, trans_b). idx \<notin> matched_b) (enumerate_from0 transactions_b))"

text \<open>
  \<open>cross_reference_transactions\<close>. \<open>list.sort(key=...)\<close> is a stable sort, as \<open>sort_key\<close> is;
  strings are compared character by character.
\<close>

definition cross_reference_transactions ::
    "parser \<Rightarrow> tx list \<Rightarrow> tx list \<Rightarrow> string \<Rightarrow> string \<Rightarrow> error + (tx list \<times> parser)" where
  "cross_reference_transactions self transactions_a transactions_b method_a method_b =
     (if transactions_a = [] \<and> transactions_b = [] then Inr ([], self)
      else if transactions_a = [] then Inr (transactions_b, self)
      else if transactions_b = [] then Inr (transactions_a, self)
      else
        (case pass1 self method_a method_b transactions_b {} transactions_a of
           Inl e \<Rightarrow> Inl e
         | Inr (steps, matched_b, self') \<Rightarrow>
             Inr (sort_key date_of (map fst steps @ pass2 method_b transactions_b matched_b), self')))"

section \<open>Classification\<close>

text \<open>\<open>trans.get('Amount', trans.get('Credits', trans.get('Debits', 0)))\<close>\<close>

definition classify_amount :: "tx \<Rightarrow> pynum" where
  "classify_amount t =
     (case Amount t of Some v \<Rightarrow> v
      | None \<Rightarrow> (case Credits t of Some v \<Rightarrow> v
                  | None \<Rightarrow> (case Debits t of Some v \<Rightarrow> v | None \<Rightarrow> PyFloat 0)))"

datatype bucket = Income | Expenses | Neither

text \<open>
  The body of the loop of \<open>classify_transactions\<close> for one transaction: the transaction as
  the loop leaves it (\<open>_manual_review\<close> may have been set) and the list it is appended to.
\<close>

definition classify_one :: "parser \<Rightarrow> bool \<Rightarrow> tx \<Rightarrow> tx \<times> bucket" where
  "classify_one self is_bank_account tr0 =
     (let place = upper (place_of tr0);
          place_original = upper (case Place_Original tr0 of Some p \<Rightarrow> p | None \<Rightarrow> place);
          amount = classify_amount tr0;
          is_payment_app = (\<exists>app \<in> set (payment_apps self). contains place app \<or> contains place_original app);
          tr = (if is_payment_app then tr0\<lparr>manual_review := Some True\<rparr> else tr0)
      in if is_bank_account then
           (let has_credits = positive_field (Credits tr);
                has_debits = positive_field (Debits tr);
                has_amount = positive_field (Amount tr)
            in if has_credits then (tr, Income)
               else if has_debits then (tr, Expenses)
               else if has_amount then
                 (let is_income_keyword = (\<exists>keyword \<in> set (income_keywords self). contains place_original keyword)
                  in if is_income_keyword then (tr, Income)
                     else if llm_available self \<and> is_payment_app then
                       (if llm_classify_transaction self place amount = ''income''
                        then (tr, Income) else (tr, Expenses))
                     else (tr, Expenses))
               else (tr, Neither))
         else (tr, Expenses))"

text \<open>\<open>classify_transactions\<close>: the lists \<open>income\<close> and \<open>expenses\<close>.\<close>

definition classify_transactions :: "parser \<Rightarrow> tx list \<Rightarrow> bool \<Rightarrow> tx list \<times> tx list" where
  "classify_transactions self transactions is_bank_account =
     (let routed = map (classify_one self is_bank_account) transactions
      in (map fst (filter (\<lambda>(t, b). b = Income) routed),
          map fst (filter (\<lambda>(t, b). b = Expenses) routed)))"

section \<open>The transaction block parser\<close>

text \<open>
  The patterns \<open>date_pattern_long\<close> \<open>^(\d{1,2}/\d{1,2}/\d{4})\<close>, \<open>date_pattern_short\<close>
  \<open>^(\d{1,2}/\d{1,2}/\d{2})\<close> and \<open>date_pattern_dash\<close> \<open>^(\d{1,2}-\d{1,2})\s\<close>.
\<close>

definition date_pattern_long :: re where
  "date_pattern_long = Seq Bol (Grp 1 (seqs [between 1 2 dg, chr_re CHR ''/'', between 1 2 dg,
                                              chr_re CHR ''/'', rep_re 4 dg]))"

definition date_pattern_short :: re where
  "date_pattern_short = Seq Bol (Grp 1 (seqs [between 1 2 dg, chr_re CHR ''/'', between 1 2 dg,
                                               chr_re CHR ''/'', rep_re 2 dg]))"

definition date_pattern_dash :: re where
  "date_pattern_dash = seqs [Bol, Grp 1 (seqs [between 1 2 dg, chr_re CHR ''-'', between 1 2 dg]), sp]"

text \<open>
  The amount pattern \<open>\$?([0-9,]+\.\d{2})\<close>, the reference number \<open>^(\d{17,})\s+\<close>, a
  long digit string \<open>\d{17,}\<close>, a time \<open>^\d{1,2}:\d{2}$\<close>, and a date at the end of a
  description \<open>\s+\d{1,2}/\d{1,2}/\d{2,4}$\<close>.
\<close>

definition amount_pattern :: re where
  "amount_pattern = Seq (opt_re (chr_re CHR ''$''))
                        (Grp 1 (seqs [plus_re dg_comma, chr_re CHR ''.'', rep_re 2 dg]))"

definition ref_pattern :: re where
  "ref_pattern = seqs [Bol, Grp 1 (atleast 17 dg), plus_re sp]"

definition long_digits_pattern :: re where
  "long_digits_pattern = atleast 17 dg"

definition time_pattern :: re where
  "time_pattern = seqs [Bol, between 1 2 dg, chr_re CHR '':'', rep_re 2 dg, Eol]"

definition trailing_date_pattern :: re where
  "trailing_date_pattern = seqs [plus_re sp, between 1 2 dg, chr_re CHR ''/'', between 1 2 dg,
                                 chr_re CHR ''/'', between 2 4 dg, Eol]"

text \<open>
  \<open>float(clean)\<close> for a text matched by \<open>[0-9,]+\.\d{2}\<close> with the commas removed: digits,
  a point and two digits, which \<open>float\<close> always accepts (so the \<open>ValueError\<close> branch of the
  source is never taken). The result is the float nearest to the decimal number.
\<close>

definition amount_value :: "string \<Rightarrow> rat" where
  "amount_value s =
     (let clean = filter (\<lambda>c. c \<noteq> CHR '','') s;
          whole = takeWhile (\<lambda>c. c \<noteq> CHR ''.'') clean;
          cents = drop 1 (dropWhile (\<lambda>c. c \<noteq> CHR ''.'') clean)
      in round64 (of_nat (digits_value whole) + of_nat (digits_value cents) / 100))"

definition extract_amounts :: "string \<Rightarrow> rat list" where
  "extract_amounts text = map (\<lambda>m. amount_value (m_group m 1)) (finditer False amount_pattern text)"

definition any_alpha :: "string \<Rightarrow> bool" where
  "any_alpha s = (\<exists>c \<in> set s. is_alpha c)"

text \<open>Whether a line starts with a date in one of the three formats.\<close>

definition starts_with_date :: "string \<Rightarrow> bool" where
  "starts_with_date line =
     (re_match False date_pattern_long line \<noteq> None
      \<or> re_match False date_pattern_short line \<noteq> None
      \<or> re_match False date_pattern_dash line \<noteq> None)"

text \<open>
  The date at the start of the current line: the match and the date as \<open>MM/DD/YYYY\<close>,
  before the OCR correction.
\<close>

definition leading_date :: "int \<Rightarrow> string \<Rightarrow> (mstate \<times> string) option" where
  "leading_date statement_year current_line =
     (case re_match False date_pattern_long current_line of
        Some m \<Rightarrow> Some (m, m_group m 1)
      | None \<Rightarrow>
          (case re_match False date_pattern_short current_line of
             Some m \<Rightarrow>
               (let date_parts = split_on CHR ''/'' (m_group m 1)
                in Some (m, date_parts ! 0 @ ''/'' @ date_parts ! 1 @ ''/20'' @ date_parts ! 2))
           | None \<Rightarrow>
               (case re_match False date_pattern_dash current_line of
                  Some m \<Rightarrow>
                    Some (m, map (\<lambda>c. if c = CHR ''-'' then CHR ''/'' else c) (m_group m 1)
                             @ ''/'' @ str_int statement_year)
                | None \<Rightarrow> None)))"

text \<open>The second date of the two-date formats: short, long or dash, in this order.\<close>

definition second_date :: "string \<Rightarrow> mstate option" where
  "second_date rest0 =
     (case re_match False date_pattern_short rest0 of
        Some m \<Rightarrow> Some m
      | None \<Rightarrow> (case re_match False date_pattern_long rest0 of
                    Some m \<Rightarrow> Some m
                  | None \<Rightarrow> re_match False date_pattern_dash rest0))"

text \<open>
  \<open>parse_transaction_block\<close>, with the statement year known: the transaction or \<open>None\<close>,
  the number of lines consumed, and the parser (whose cache \<open>_build_transaction\<close> may
  have written). The source removes the amounts from the description by copying the text
  between the matches of \<open>\$?[0-9,]+\.\d{2}\<close>, which is \<open>re.sub\<close> with an empty
  replacement.
\<close>

definition parse_transaction_block ::
    "parser \<Rightarrow> string list \<Rightarrow> nat \<Rightarrow> int \<Rightarrow> (tx option \<times> nat) \<times> parser" where
  "parse_transaction_block self lines start_idx statement_year =
     (if start_idx \<ge> length lines then ((None, 0), self)
      else
        let current_line = strip (lines ! start_idx) in
        if current_line = [] then ((None, 1), self)
        else
          (case leading_date statement_year current_line of
             Some (date_match, trans_date0) \<Rightarrow>
               (let trans_date = (if trans_date0 \<noteq> [] then fix_ocr_date_errors trans_date0 else trans_date0);
                    rest1 = strip (drop (m_end date_match) current_line);
                    rest2 = (case second_date rest1 of
                               Some m2 \<Rightarrow> strip (drop (m_end m2) rest1) | None \<Rightarrow> rest1);
                    rest3 = (case re_match False ref_pattern rest2 of
                               Some m3 \<Rightarrow> strip (drop (m_end m3) rest2) | None \<Rightarrow> rest2);
                    amounts = extract_amounts rest3;
                    description1 = re_sub False amount_pattern [] rest3;
                    description2 = re_sub False long_digits_pattern [] description1;
                    description3 = strip (join '' '' (split_ws description2));
                    description4 =
                      (if description3 = [] \<or> length description3 < 3 \<or> \<not> any_alpha description3 then
                         (if start_idx > 0 then
                            (let prev_line = strip (lines ! (start_idx - 1));
                                 has_date = starts_with_date prev_line;
                                 is_time = (re_match False time_pattern prev_line \<noteq> None)
                             in if prev_line \<noteq> [] \<and> \<not> has_date \<and> \<not> is_time \<and> any_alpha prev_line
                                   \<and> length prev_line > 5
                                then prev_line else description3)
                          else description3)
                       else description3);
                    continued =
                      (start_idx + 1 < length lines
                       \<and> (let next_line = strip (lines ! (start_idx + 1))
                          in next_line \<noteq> [] \<and> \<not> starts_with_date next_line
                             \<and> any_alpha next_line \<and> CHR ''$'' \<notin> set next_line));
                    description5 = (if continued then description4 @ '' '' @ strip (lines ! (start_idx + 1))
                                    else description4);
                    lines_consumed = (if continued then 2 else 1)
                in if description5 = [] \<or> amounts = [] then ((None, lines_consumed), self)
                   else
                     (let (built, self') = build_transaction self trans_date description5 amounts
                      in ((built, lines_consumed), self')))
           | None \<Rightarrow>
               if \<not> any_alpha current_line then ((None, 1), self)
               else
                 (let description1 = re_sub False trailing_date_pattern [] current_line in
                  if start_idx + 1 \<ge> length lines then ((None, 1), self)
                  else
                    (let next_line = strip (lines ! (start_idx + 1)) in
                     case re_match False date_pattern_long next_line of
                       None \<Rightarrow> ((None, 1), self)
                     | Some date_match \<Rightarrow>
                         (let trans_date = m_group date_match 1;
                              rest1 = strip (drop (m_end date_match) next_line);
                              amounts = extract_amounts rest1
                          in if amounts = [] then ((None, 2), self)
                             else
                               (let continued =
                                      (start_idx + 2 < length lines
                                       \<and> (let third_line = strip (lines ! (start_idx + 2))
                                          in third_line \<noteq> []
                                             \<and> re_match False date_pattern_long third_line = None
                                             \<and> any_alpha third_line \<and> CHR ''$'' \<notin> set third_line));
                                    description2 = (if continued
                                                    then description1 @ '' '' @ strip (lines ! (start_idx + 2))
                                                    else description1);
                                    lines_consumed = (if continued then 3 else 2);
                                    (built, self') = build_transaction self trans_date description2 amounts
                                in ((built, lines_consumed), self')))))))"

section \<open>Parsing all transactions of a text\<close>

text \<open>
  The patterns of \<open>extract_statement_year\<close>, searched in the lower-cased text in this
  order; group 1 is the year.
\<close>

definition year_patterns :: "re list" where
  \<open>year_patterns = [
     \<comment> \<open>\<open>(?:billing cycle|statement).*?ending.*?\d{1,2}/\d{1,2}/(\d{4})\<close>\<close>
     seqs [Alt (lit ''billing cycle'') (lit ''statement''), Lazy dot, lit ''ending'', Lazy dot,
           between 1 2 dg, chr_re CHR ''/'', between 1 2 dg, chr_re CHR ''/'', Grp 1 (rep_re 4 dg)],
     \<comment> \<open>\<open>statement closing date.*?\d{1,2}/\d{1,2}/(\d{2,4})\<close>\<close>
     seqs [lit ''statement closing date'', Lazy dot,
           between 1 2 dg, chr_re CHR ''/'', between 1 2 dg, chr_re CHR ''/'', Grp 1 (between 2 4 dg)],
     \<comment> \<open>\<open>statement date.*?\d{1,2}/\d{1,2}/(\d{4})\<close>\<close>
     seqs [lit ''statement date'', Lazy dot,
           between 1 2 dg, chr_re CHR ''/'', between 1 2 dg, chr_re CHR ''/'', Grp 1 (rep_re 4 dg)],
     \<comment> \<open>\<open>forbilling cycleending \d{1,2}/\d{1,2}/(\d{2})\<close>\<close>
     seqs [lit ''forbilling cycleending '',
           between 1 2 dg, chr_re CHR ''/'', between 1 2 dg, chr_re CHR ''/'', Grp 1 (rep_re 2 dg)],
     \<comment> \<open>\<open>for billing cycle ending \d{1,2}/\d{1,2}/(\d{2})\<close>\<close>
     seqs [lit ''for billing cycle ending '',
           between 1 2 dg, chr_re CHR ''/'', between 1 2 dg, chr_re CHR ''/'', Grp 1 (rep_re 2 dg)]]\<close>

text \<open>
  \<open>extract_statement_year\<close>. \<open>now_year\<close> is \<open>datetime.now().year\<close>. Group 1 consists of
  decimal digits, for which \<open>int\<close> is their decimal value.
\<close>

fun first_year :: "re list \<Rightarrow> string \<Rightarrow> int option" where
  "first_year [] text_lower = None"
| "first_year (pattern # patterns) text_lower =
     (case re_search False pattern text_lower of
        Some m \<Rightarrow>
          (let year_str = m_group m 1
           in if length year_str = 2 then Some (2000 + int (digits_value year_str))
              else Some (int (digits_value year_str)))
      | None \<Rightarrow> first_year patterns text_lower)"

definition extract_statement_year :: "int \<Rightarrow> string \<Rightarrow> int" where
  "extract_statement_year now_year text =
     (case first_year year_patterns (lower text) of Some y \<Rightarrow> y | None \<Rightarrow> now_year)"

text \<open>The marker lists of \<open>parse_transactions\<close>.\<close>

definition section_start_markers :: "string list" where
  "section_start_markers = [''ACCOUNT ACTIVITY'', ''TRANSACTION HISTORY'', ''TRANSACTIONS'',
     ''POST DATE'', ''TRANS DATE'', ''POSTING'', ''DESCRIPTION OF TRANSACTION'']"

definition section_end_markers :: "string list" where
  "section_end_markers = [''TOTAL DEBITS'', ''TOTAL CREDITS'', ''INTEREST SUMMARY'', ''FEES SUMMARY'',
     ''PAGE 2'', ''PAGE 3'', ''PAGE 4'', ''STATEMENT CLOSING'', ''IMPORTANT INFORMATION'',
     ''OVERDRAFT'', ''DIRECT DEPOSIT'', ''INTEREST RATE'', ''DAILY BALANCES'',
     ''DAILY BALANCE'', ''ENDING BALANCE'']"

definition summary_markers :: "string list" where
  "summary_markers = [''BEGINNING BALANCE'', ''ENDING BALANCE'', ''CREDIT(S) THIS PERIOD'',
     ''DEBIT(S) THIS PERIOD'', ''INTEREST PAID'', ''ANNUAL PERCENTAGE'',
     ''INTEREST DAYS'', ''INTEREST EARNED FROM'']"

definition header_markers :: "string list" where
  "header_markers = [''POST DATE DESCRIPTION'', ''DATE DESCRIPTION DEBITS'', ''TRANS DATE'', ''REFERENCE'']"

definition contains_any :: "string \<Rightarrow> string list \<Rightarrow> bool" where
  "contains_any s markers = (\<exists>marker \<in> set markers. contains s marker)"

text \<open>\<open>^\d{1,2}[/-]\d{1,2}\<close>\<close>

definition line_date_pattern :: re where
  "line_date_pattern = seqs [Bol, between 1 2 dg, one_of ''/-'', between 1 2 dg]"

text \<open>\<open>trans and trans.get('Place')\<close>\<close>

definition has_place :: "tx option \<Rightarrow> bool" where
  "has_place built = (case built of None \<Rightarrow> False
                      | Some t \<Rightarrow> tx_truthy t \<and> (case Place t of Some p \<Rightarrow> p \<noteq> [] | None \<Rightarrow> False))"

text \<open>
  The loop of \<open>parse_transactions\<close> from line \<open>i\<close> on: the transactions appended from there
  on, and the parser at the end.
\<close>

function parse_loop :: "parser \<Rightarrow> string list \<Rightarrow> int \<Rightarrow> nat \<Rightarrow> bool \<Rightarrow> tx list \<times> parser" where
  "parse_loop self lines statement_year i in_transaction_section =
     (if i < length lines then
        (let line = strip (lines ! i);
             line_upper = upper line
         in if contains_any line_upper section_start_markers
            then parse_loop self lines statement_year (i + 1) True
            else if in_transaction_section \<and> contains_any line_upper section_end_markers
            then parse_loop self lines statement_year (i + 1) False
            else if contains_any line_upper summary_markers
            then parse_loop self lines statement_year (i + 1) in_transaction_section
            else if contains_any line_upper header_markers
            then parse_loop self lines statement_year (i + 1) in_transaction_section
            else if \<not> in_transaction_section \<and> re_match False line_date_pattern line = None
            then parse_loop self lines statement_year (i + 1) in_transaction_section
            else
              (case parse_transaction_block self lines i statement_year of
                 ((built, consumed), self') \<Rightarrow>
                   (case parse_loop self' lines statement_year
                           (i + (if consumed > 0 then consumed else 1)) in_transaction_section of
                      (transactions, self'') \<Rightarrow>
                        (if has_place built
                         then (case built of Some t \<Rightarrow> t # transactions | None \<Rightarrow> transactions, self'')
                         else (transactions, self'')))))
      else ([], self))"
  by pat_completeness auto
termination
  by (relation "measure (\<lambda>(self, lines, statement_year, i, in_section). length lines - i)") auto

declare parse_loop.simps [simp del]

text \<open>\<open>parse_transactions\<close>; \<open>now_year\<close> is the current year, used when the text names none.\<close>

definition parse_transactions :: "parser \<Rightarrow> int \<Rightarrow> string \<Rightarrow> int option \<Rightarrow> tx list \<times> parser" where
  "parse_transactions self now_year text statement_year =
     parse_loop self (split_on CHR 0x0A text)
       (case statement_year of None \<Rightarrow> extract_statement_year now_year text | Some y \<Rightarrow> y)
       0 False"

section \<open>Reference values\<close>

text \<open>
  The deductions of the validator as the specification words them: 20 if fewer than 90% of
  the entries have a well-formed date, 30 if fewer than 90% have a positive amount field,
  30 if fewer than 80% have a description of at least 3 characters with a letter, 20 if
  there are fewer than 3 transactions, 10 if fewer than 50% of the descriptions are unique.
\<close>

definition spec_deductions :: "tx list \<Rightarrow> int" where
  "spec_deductions ts =
     (if 10 * length (filter has_valid_date ts) < 9 * length ts then 20 else 0)
   + (if 10 * length (filter has_valid_amount ts) < 9 * length ts then 30 else 0)
   + (if 10 * length (filter has_valid_description ts) < 8 * length ts then 30 else 0)
   + (if length ts < 3 then 20 else 0)
   + (if 2 * card (set (map place_of ts)) < length ts then 10 else 0)"

text \<open>
  A parser whose language-model service is not available, with empty keyword tables and an
  empty merchant cache, and three transactions, for evaluating the functions.
\<close>

definition offline_parser :: parser where
  "offline_parser =
     \<lparr>income_keywords = [], transfer_keywords = [], payment_apps = [], llm_available = False,
      merchant_cache = Map.empty, llm_merchant_answer = (\<lambda>merchant amount date. merchant),
      llm_classify_answer = (\<lambda>place amount. ''expense'')\<rparr>"

definition sample_tx :: "string \<Rightarrow> string \<Rightarrow> rat \<Rightarrow> tx" where
  "sample_tx d p a = empty_tx\<lparr>Transaction_Date := Some d, Place := Some p, Place_Original := Some p,
                              Amount := Some (PyFloat a)\<rparr>"

text \<open>
  The row that the parser builds from the line \<open>03/02/2025 DEPOSIT 0.00 50.00 95.00\<close>:
  three amounts, of which the first is not positive, so that \<open>Debits\<close> holds \<open>None\<close>.
\<close>

definition deposit_row :: tx where
  "deposit_row = empty_tx\<lparr>Transaction_Date := Some ''03/02/2025'', Place := Some ''Deposit'',
                           Place_Original := Some ''DEPOSIT'', Balance := Some (PyFloat 95),
                           Debits := Some PyNone, Credits := Some (PyFloat 50)\<rparr>"

text \<open>
  The tags of the reconciler, and the indices of \<open>transactions_b\<close> named by a list of
  optional matches.
\<close>

definition tag_only :: "string \<Rightarrow> tx \<Rightarrow> tx" where
  "tag_only meth t = t\<lparr>extraction_method := Some (meth @ '' only'')\<rparr>"

definition matched_tag :: "string \<Rightarrow> string \<Rightarrow> string" where
  "matched_tag method_a method_b = method_a @ '' (matched with '' @ method_b @ '')''"

definition matched_indices :: "nat option list \<Rightarrow> nat list" where
  "matched_indices opts = concat (map (\<lambda>m. case m of None \<Rightarrow> [] | Some j \<Rightarrow> [j]) opts)"

text \<open>
  What the reconciler may emit for an element \<open>a\<close> of the first list: \<open>a\<close> tagged as unique
  when it was not matched, or \<open>a\<close> with a new \<open>Place\<close> and \<open>Place_Original\<close> and the tag
  of a match.
\<close>

definition emitted_for :: "string \<Rightarrow> string \<Rightarrow> tx \<Rightarrow> tx \<times> nat option \<Rightarrow> bool" where
  "emitted_for method_a method_b a step =
     (case snd step of
        None \<Rightarrow> fst step = tag_only method_a a
      | Some j \<Rightarrow> fst step = a\<lparr>Place := Place (fst step), Place_Original := Place_Original (fst step),
                                extraction_method := Some (matched_tag method_a method_b)\<rparr>)"

section \<open>Properties of the rounding\<close>

lemma powi_nat: "0 \<le> e \<Longrightarrow> (2::rat) powi e = 2 ^ nat e"
  by (simp add: power_int_def)

lemma flog2_bounds:
  assumes "0 < a"
  shows "2 powi (flog2 a) \<le> a" and "a < 2 powi (flog2 a + 1)"
proof -
  have "2 powi (flog2 a) \<le> a \<and> a < 2 powi (flog2 a + 1)"
  proof (cases "1 \<le> a")
    case True
    then have f: "0 < \<lfloor>a\<rfloor>" by linarith
    let ?b = "bitlen \<lfloor>a\<rfloor>"
    from bitlen_bounds [OF f] have lo: "2 ^ nat (?b - 1) \<le> \<lfloor>a\<rfloor>" and hi: "\<lfloor>a\<rfloor> < 2 ^ nat ?b"
      by simp_all
    have b1: "1 \<le> ?b" using f by (simp add: bitlen_alt_def)
    have e: "flog2 a = ?b - 1" using True by (simp add: flog2_def)
    have "(of_int (2 ^ nat (?b - 1)) :: rat) \<le> of_int \<lfloor>a\<rfloor>"
      by (rule iffD2 [OF of_int_le_iff]) (rule lo)
    then have l0: "(2::rat) ^ nat (?b - 1) \<le> of_int \<lfloor>a\<rfloor>" by simp
    have "of_int \<lfloor>a\<rfloor> \<le> a" by simp
    with l0 have l: "(2::rat) ^ nat (?b - 1) \<le> a" by (rule order_trans)
    have "\<lfloor>a\<rfloor> + 1 \<le> 2 ^ nat ?b" using hi by simp
    then have "(of_int (\<lfloor>a\<rfloor> + 1) :: rat) \<le> of_int (2 ^ nat ?b)"
      by (rule iffD2 [OF of_int_le_iff])
    then have h0: "(of_int \<lfloor>a\<rfloor> + 1 :: rat) \<le> 2 ^ nat ?b" by simp
    have "a < of_int \<lfloor>a\<rfloor> + 1" by linarith
    with h0 have h: "a < 2 ^ nat ?b" by linarith
    show ?thesis
      unfolding e using l h b1 by (simp add: powi_nat)
  next
    case False
    with assms have a1: "a < 1" by simp
    let ?c = "\<lceil>1 / a\<rceil>"
    have inv: "1 < 1 / a" using assms a1 by simp
    then have c2: "2 \<le> ?c" by linarith
    then have m: "0 < ?c - 1" by simp
    let ?b = "bitlen (?c - 1)"
    from bitlen_bounds [OF m] have lo: "2 ^ nat (?b - 1) \<le> ?c - 1" and hi: "?c - 1 < 2 ^ nat ?b"
      by simp_all
    have b1: "1 \<le> ?b" using m by (simp add: bitlen_alt_def)
    have e: "flog2 a = - ?b" using False by (simp add: flog2_def)
    \<comment> \<open>\<open>2 ^ (b - 1) < 1 / a \<le> 2 ^ b\<close>\<close>
    have "?c \<le> 2 ^ nat ?b" using hi by simp
    then have "(of_int ?c :: rat) \<le> of_int (2 ^ nat ?b)"
      by (rule iffD2 [OF of_int_le_iff])
    then have u0: "(of_int ?c :: rat) \<le> 2 ^ nat ?b" by simp
    have "1 / a \<le> of_int ?c" by (rule le_of_int_ceiling)
    with u0 have u: "1 / a \<le> 2 ^ nat ?b" by linarith
    have "(of_int (2 ^ nat (?b - 1)) :: rat) \<le> of_int (?c - 1)"
      by (rule iffD2 [OF of_int_le_iff]) (rule lo)
    then have l0: "(2::rat) ^ nat (?b - 1) \<le> of_int ?c - 1" by simp
    have "of_int ?c - 1 < 1 / a" by linarith
    with l0 have l: "2 ^ nat (?b - 1) < 1 / a" by linarith
    have p1: "(2::rat) powi (- ?b) = 1 / 2 ^ nat ?b"
      using b1 by (simp add: power_int_def field_simps)
    have p2: "(2::rat) powi (- ?b + 1) = 1 / 2 ^ nat (?b - 1)"
    proof -
      have "- ?b + 1 = - (?b - 1)" by simp
      then show ?thesis using b1 by (simp add: power_int_def field_simps)
    qed
    have r1: "1 / 2 ^ nat ?b \<le> a"
      using u assms by (simp add: field_simps)
    have r2: "a < 1 / 2 ^ nat (?b - 1)"
      using l assms by (simp add: field_simps)
    show ?thesis unfolding e p1 p2 using r1 r2 by simp
  qed
  then show "2 powi (flog2 a) \<le> a" and "a < 2 powi (flog2 a + 1)" by simp_all
qed

lemma round_half_even_bounds:
  "\<bar>of_int (round_half_even n) - n\<bar> \<le> 1 / 2"
proof -
  have "of_int \<lfloor>n\<rfloor> \<le> n" "n < of_int \<lfloor>n\<rfloor> + 1" by linarith+
  then show ?thesis
    by (auto simp: round_half_even_def Let_def abs_le_iff)
qed

lemma round_half_even_of_int [simp]: "round_half_even (of_int k) = k"
  by (simp add: round_half_even_def)

lemma round_half_even_mono:
  assumes "n \<le> m"
  shows "round_half_even n \<le> round_half_even m"
proof (cases "\<lfloor>n\<rfloor> = \<lfloor>m\<rfloor>")
  case True
  then show ?thesis
    using assms by (auto simp: round_half_even_def Let_def)
next
  case False
  with assms have lt: "\<lfloor>n\<rfloor> < \<lfloor>m\<rfloor>" using floor_mono [OF assms] by linarith
  have "round_half_even n \<le> \<lfloor>n\<rfloor> + 1" by (auto simp: round_half_even_def Let_def)
  also have "\<dots> \<le> \<lfloor>m\<rfloor>" using lt by simp
  also have "\<dots> \<le> round_half_even m" by (auto simp: round_half_even_def Let_def)
  finally show ?thesis .
qed

lemma powi_pos [simp]: "(0::rat) < 2 powi e"
  by simp

lemma powi_mono: "e \<le> e' \<Longrightarrow> (2::rat) powi e \<le> 2 powi e'"
  by (rule power_int_increasing) simp_all

lemma powi_split: "(2::rat) powi e = 2 ^ 52 * 2 powi (e - 52)"
proof -
  have "(2::rat) powi e = 2 powi (52 + (e - 52))" by simp
  also have "\<dots> = 2 powi 52 * 2 powi (e - 52)" by (rule power_int_add) simp
  finally show ?thesis by simp
qed

lemma powi_Suc: "(2::rat) powi (e + 1) = 2 * 2 powi e"
  by (simp add: power_int_add)

text \<open>For a positive argument the scaled significand lies between \<open>2^52\<close> and \<open>2^53\<close>.\<close>

lemma significand_bounds:
  assumes "0 < a"
  shows "2 ^ 52 \<le> a / 2 powi (flog2 a - 52)" and "a / 2 powi (flog2 a - 52) < 2 ^ 53"
proof -
  let ?q = "(2::rat) powi (flog2 a - 52)"
  have q: "0 < ?q" by simp
  from flog2_bounds [OF assms] have lo: "2 ^ 52 * ?q \<le> a" and hi: "a < 2 * (2 ^ 52 * ?q)"
    by (simp_all add: powi_Suc powi_split [of "flog2 a"])
  show "2 ^ 52 \<le> a / ?q" using lo q by (simp add: pos_le_divide_eq)
  show "a / ?q < 2 ^ 53" using hi q by (simp add: pos_divide_less_eq)
qed

lemma rounded_significand_bounds:
  assumes "0 < a"
  shows "2 ^ 52 \<le> round_half_even (a / 2 powi (flog2 a - 52))"
    and "round_half_even (a / 2 powi (flog2 a - 52)) \<le> 2 ^ 53"
proof -
  let ?n = "a / 2 powi (flog2 a - 52)"
  have "round_half_even (of_int (2 ^ 52)) \<le> round_half_even ?n"
    by (rule round_half_even_mono) (use significand_bounds(1) [OF assms] in simp)
  then show "2 ^ 52 \<le> round_half_even ?n" by (simp only: round_half_even_of_int)
  have "round_half_even ?n \<le> round_half_even (of_int (2 ^ 53))"
    by (rule round_half_even_mono) (use significand_bounds(2) [OF assms] in simp)
  then show "round_half_even ?n \<le> 2 ^ 53" by (simp only: round_half_even_of_int)
qed

lemma round64_pos_def:
  assumes "0 < x"
  shows "round64 x = of_int (round_half_even (x / 2 powi (flog2 x - 52))) * 2 powi (flog2 x - 52)"
  using assms by (simp add: round64_def Let_def)

lemma round64_error:
  assumes "0 < x"
  shows "\<bar>round64 x - x\<bar> \<le> 2 powi (flog2 x - 53)"
proof -
  let ?q = "(2::rat) powi (flog2 x - 52)"
  let ?n = "x / ?q"
  have q: "0 < ?q" by simp
  have half: "?q / 2 = 2 powi (flog2 x - 53)"
  proof -
    have "?q = 2 powi ((flog2 x - 53) + 1)" by simp
    also have "\<dots> = 2 * 2 powi (flog2 x - 53)" by (rule powi_Suc)
    finally show ?thesis by simp
  qed
  have "round64 x - x = (of_int (round_half_even ?n) - ?n) * ?q"
    using q by (simp add: round64_pos_def [OF assms] algebra_simps)
  then have "\<bar>round64 x - x\<bar> = \<bar>of_int (round_half_even ?n) - ?n\<bar> * ?q"
    using q by (simp add: abs_mult)
  also have "\<dots> \<le> (1 / 2) * ?q"
    by (rule mult_right_mono [OF round_half_even_bounds]) simp
  finally show ?thesis using half by simp
qed

lemma round64_lower:
  assumes "0 < x"
  shows "2 powi (flog2 x) \<le> round64 x" and "round64 x \<le> 2 powi (flog2 x + 1)"
proof -
  let ?q = "(2::rat) powi (flog2 x - 52)"
  let ?r = "round_half_even (x / ?q)"
  have q: "0 < ?q" by simp
  have "(of_int (2 ^ 52) :: rat) \<le> of_int ?r"
    by (rule iffD2 [OF of_int_le_iff]) (rule rounded_significand_bounds(1) [OF assms])
  then have "2 ^ 52 * ?q \<le> of_int ?r * ?q" using q by simp
  then show "2 powi (flog2 x) \<le> round64 x"
    by (simp add: round64_pos_def [OF assms] powi_split [of "flog2 x"])
  have "(of_int ?r :: rat) \<le> of_int (2 ^ 53)"
    by (rule iffD2 [OF of_int_le_iff]) (rule rounded_significand_bounds(2) [OF assms])
  then have "of_int ?r * ?q \<le> 2 ^ 53 * ?q" using q by simp
  then show "round64 x \<le> 2 powi (flog2 x + 1)"
    by (simp add: round64_pos_def [OF assms] powi_Suc powi_split [of "flog2 x"])
qed

lemma flog2_mono:
  assumes "0 < x" "x \<le> y"
  shows "flog2 x \<le> flog2 y"
proof (rule ccontr)
  assume "\<not> flog2 x \<le> flog2 y"
  then have "flog2 y + 1 \<le> flog2 x" by simp
  then have "(2::rat) powi (flog2 y + 1) \<le> 2 powi (flog2 x)" by (rule powi_mono)
  also have "\<dots> \<le> x" by (rule flog2_bounds(1) [OF assms(1)])
  also have "\<dots> \<le> y" by (rule assms(2))
  finally show False using flog2_bounds(2) [of y] assms by simp
qed

lemma round64_mono:
  assumes "0 < x" "x \<le> y"
  shows "round64 x \<le> round64 y"
proof -
  have y: "0 < y" using assms by simp
  from flog2_mono [OF assms] consider "flog2 x = flog2 y" | "flog2 x + 1 \<le> flog2 y" by linarith
  then show ?thesis
  proof cases
    case 1
    let ?q = "(2::rat) powi (flog2 y - 52)"
    have q: "0 < ?q" by simp
    have "x / ?q \<le> y / ?q" using assms(2) q by (simp add: divide_right_mono)
    then have "round_half_even (x / ?q) \<le> round_half_even (y / ?q)" by (rule round_half_even_mono)
    then have "(of_int (round_half_even (x / ?q)) :: rat) \<le> of_int (round_half_even (y / ?q))"
      by (rule iffD2 [OF of_int_le_iff])
    then have "of_int (round_half_even (x / ?q)) * ?q \<le> of_int (round_half_even (y / ?q)) * ?q"
      using q by simp
    then show ?thesis
      by (simp add: round64_pos_def [OF assms(1)] round64_pos_def [OF y] 1)
  next
    case 2
    have "round64 x \<le> 2 powi (flog2 x + 1)" by (rule round64_lower(2) [OF assms(1)])
    also have "\<dots> \<le> 2 powi (flog2 y)" using 2 by (rule powi_mono)
    also have "\<dots> \<le> round64 y" by (rule round64_lower(1) [OF y])
    finally show ?thesis .
  qed
qed

lemma round64_zero [simp]: "round64 0 = 0"
  by (simp add: round64_def)

lemma round64_pos: "0 < x \<Longrightarrow> 0 < round64 x"
  using round64_lower(1) [of x] powi_pos [of "flog2 x"] by linarith

lemma flog2_less:
  assumes "0 < x" "x < 2 powi e"
  shows "flog2 x < e"
proof (rule ccontr)
  assume "\<not> flog2 x < e"
  then have "e \<le> flog2 x" by simp
  then have "(2::rat) powi e \<le> 2 powi (flog2 x)" by (rule powi_mono)
  also have "\<dots> \<le> x" by (rule flog2_bounds(1) [OF assms(1)])
  finally show False using assms(2) by simp
qed

lemma round64_error_le:
  assumes "0 < x" "x < 2 powi e"
  shows "\<bar>round64 x - x\<bar> \<le> 2 powi (e - 54)"
proof -
  have "flog2 x - 53 \<le> e - 54" using flog2_less [OF assms] by simp
  then have "(2::rat) powi (flog2 x - 53) \<le> 2 powi (e - 54)" by (rule powi_mono)
  with round64_error [OF assms(1)] show ?thesis by linarith
qed

text \<open>A quotient of two counts, rounded, lies below a rounded threshold \<open>c/10\<close> exactly when
  the exact quotient lies below the exact threshold, for every count below \<open>2^52 / 10\<close>.\<close>

lemma round64_ratio_less:
  fixes k n c :: nat
  assumes n: "0 < n" and small: "10 * n < 2 ^ 52" and c: "0 < c" "c \<le> 10"
  shows "round64 (of_nat k / of_nat n) < round64 (of_nat c / 10) \<longleftrightarrow> 10 * k < c * n"
proof
  let ?x = "of_nat k / of_nat n :: rat" and ?t = "of_nat c / 10 :: rat"
  have t: "0 < ?t" using c by simp
  {
    assume less: "round64 ?x < round64 ?t"
    show "10 * k < c * n"
    proof (rule ccontr)
      assume "\<not> 10 * k < c * n"
      then have "c * n \<le> 10 * k" by simp
      then have "(of_nat (c * n) :: rat) \<le> of_nat (10 * k)" by (rule iffD2 [OF of_nat_le_iff])
      then have "?t \<le> ?x" using n by (simp add: field_simps)
      from round64_mono [OF t this] less show False by simp
    qed
  }
  {
    assume less: "10 * k < c * n"
    show "round64 ?x < round64 ?t"
    proof (cases "k = 0")
      case True
      then show ?thesis using round64_pos [OF t] by simp
    next
      case False
      then have x: "0 < ?x" using n by simp
      have "10 * k + 1 \<le> c * n" using less by simp
      then have "(of_nat (10 * k + 1) :: rat) \<le> of_nat (c * n)" by (rule iffD2 [OF of_nat_le_iff])
      then have gap: "?x + 1 / (10 * of_nat n) \<le> ?t" using n by (simp add: field_simps)
      have "(of_nat (10 * n) :: rat) < of_nat (2 ^ 52)" using small by (rule iffD2 [OF of_nat_less_iff])
      then have "(10 * of_nat n :: rat) < 2 ^ 52" by simp
      then have "1 / (2 ^ 52 :: rat) < 1 / (10 * of_nat n)" using n by (simp add: field_simps)
      with gap have gap': "?x + 1 / 2 ^ 52 < ?t" by linarith
      have t1: "?t \<le> 1" using c by simp
      then have "?x < 1" using gap' by simp
      then have "?x < 2 powi 0" by simp
      have p54: "(2::rat) powi (0 - 54) = 1 / 2 ^ 54"
        by (simp add: power_int_minus inverse_eq_divide)
      from round64_error_le [OF x \<open>?x < 2 powi 0\<close>] have "\<bar>round64 ?x - ?x\<bar> \<le> 1 / 2 ^ 54"
        by (simp only: p54)
      then have ex: "round64 ?x \<le> ?x + 1 / 2 ^ 54" by linarith
      have "?t < 2 powi 1" using t1 by simp
      have p53: "(2::rat) powi (1 - 54) = 1 / 2 ^ 53"
        by (simp add: power_int_minus inverse_eq_divide)
      from round64_error_le [OF t \<open>?t < 2 powi 1\<close>] have "\<bar>round64 ?t - ?t\<bar> \<le> 1 / 2 ^ 53"
        by (simp only: p53)
      then have et: "?t - 1 / 2 ^ 53 \<le> round64 ?t" by linarith
      have "(1 / 2 ^ 54 + 1 / 2 ^ 53 :: rat) < 1 / 2 ^ 52" by simp
      with ex et gap' show ?thesis by linarith
    qed
  }
qed

section \<open>Properties of the OCR date correction\<close>

lemma split_on_nonempty: "split_on sep s \<noteq> []"
  by (induction s) (auto split: list.splits)

lemma split_on_no_sep: "sep \<notin> set m \<Longrightarrow> split_on sep (m @ sep # r) = m # split_on sep r"
  by (induction m) (auto split: list.splits)

lemma join_split_on: "join [sep] (split_on sep s) = s"
proof (induction s)
  case Nil
  show ?case by simp
next
  case (Cons c cs)
  obtain p ps where ps: "split_on sep cs = p # ps"
    using split_on_nonempty [of sep cs] by (cases "split_on sep cs") auto
  show ?case
  proof (cases "c = sep")
    case True
    with Cons ps show ?thesis by simp
  next
    case False
    with Cons ps show ?thesis by (cases ps) auto
  qed
qed

lemma join_cons_split_on: "join [sep] (x # split_on sep r) = x @ sep # r"
proof -
  obtain p ps where ps: "split_on sep r = p # ps"
    using split_on_nonempty [of sep r] by (cases "split_on sep r") auto
  have "join [sep] (x # p # ps) = x @ [sep] @ join [sep] (p # ps)" by simp
  also have "join [sep] (p # ps) = r" using join_split_on [of sep r] ps by simp
  finally show ?thesis using ps by simp
qed

lemma fix_ocr_date_errors_parts:
  assumes "CHR ''/'' \<notin> set m"
  shows "fix_ocr_date_errors (m @ CHR ''/'' # r) =
     (case py_int m of
        None \<Rightarrow> m @ CHR ''/'' # r
      | Some month \<Rightarrow>
          if month > 12 then
            (case map_of corrections month of
               Some c \<Rightarrow> zfill (if month \<ge> 10 then 2 else 1) (str_int c) @ CHR ''/'' # r
             | None \<Rightarrow>
                 if month div 10 > 1 \<and> month mod 10 \<le> 2
                 then str_int (10 + month mod 10) @ CHR ''/'' # r
                 else m @ CHR ''/'' # r)
          else m @ CHR ''/'' # r)"
proof -
  have sp: "split_on CHR ''/'' (m @ CHR ''/'' # r) = m # split_on CHR ''/'' r"
    using assms by (rule split_on_no_sep)
  have len: "\<not> length (m # split_on CHR ''/'' r) < 2"
    using split_on_nonempty [of "CHR ''/''" r] by (cases "split_on CHR ''/'' r") auto
  have j: "\<And>x. join ''/'' (x # split_on CHR ''/'' r) = x @ CHR ''/'' # r"
    by (rule join_cons_split_on)
  show ?thesis
    unfolding fix_ocr_date_errors_def sp Let_def
    using len by (simp add: j split: option.splits)
qed

text \<open>
  The date patterns of \<open>parse_transaction_block\<close>, which makes the one call of
  \<open>_fix_ocr_date_errors\<close>, give a month of one or two digits. For a month below 100 the
  quotient \<open>month // 10\<close> that the source tests is the tens digit of the month.
\<close>

lemma tens_digit: "0 \<le> k \<Longrightarrow> k < 100 \<Longrightarrow> (k div 10) mod 10 = k div (10::int)"
  by simp

text \<open>
  C4. A date string without a slash, or whose month part \<open>m\<close> does not parse as an integer
  or parses to at most 12, is returned unchanged. A month above 12 is rewritten by the table
  42 to 12, 41 to 11, 40 to 10, 14 to 11, 13 to 11; a month of two digits outside the table
  whose tens digit exceeds 1 and whose units digit is at most 2 becomes 10 plus the units
  digit; every other month of two digits is left as it is. The text after the first slash
  is never changed. In particular 42/29/2025 becomes 12/29/2025.
\<close>

theorem fix_ocr_date_errors_cases:
  "(CHR ''/'' \<notin> set d \<longrightarrow> fix_ocr_date_errors d = d)
   \<and> (CHR ''/'' \<notin> set m \<longrightarrow>
        (py_int m = None \<longrightarrow> fix_ocr_date_errors (m @ CHR ''/'' # r) = m @ CHR ''/'' # r)
      \<and> (\<forall>k. py_int m = Some k \<longrightarrow>
            (k \<le> 12 \<longrightarrow> fix_ocr_date_errors (m @ CHR ''/'' # r) = m @ CHR ''/'' # r)
          \<and> (k = 42 \<longrightarrow> fix_ocr_date_errors (m @ CHR ''/'' # r) = ''12'' @ CHR ''/'' # r)
          \<and> (k = 41 \<longrightarrow> fix_ocr_date_errors (m @ CHR ''/'' # r) = ''11'' @ CHR ''/'' # r)
          \<and> (k = 40 \<longrightarrow> fix_ocr_date_errors (m @ CHR ''/'' # r) = ''10'' @ CHR ''/'' # r)
          \<and> (k = 14 \<or> k = 13 \<longrightarrow> fix_ocr_date_errors (m @ CHR ''/'' # r) = ''11'' @ CHR ''/'' # r)
          \<and> (12 < k \<and> k < 100 \<and> k \<notin> {42, 41, 40, 14, 13}
               \<and> 1 < (k div 10) mod 10 \<and> k mod 10 \<le> 2 \<longrightarrow>
               fix_ocr_date_errors (m @ CHR ''/'' # r) =
                 (if k mod 10 = 0 then ''10'' else if k mod 10 = 1 then ''11'' else ''12'') @ CHR ''/'' # r)
          \<and> (12 < k \<and> k < 100 \<and> k \<notin> {42, 41, 40, 14, 13}
               \<and> \<not> (1 < (k div 10) mod 10 \<and> k mod 10 \<le> 2) \<longrightarrow>
               fix_ocr_date_errors (m @ CHR ''/'' # r) = m @ CHR ''/'' # r)))
   \<and> fix_ocr_date_errors ''42/29/2025'' = ''12/29/2025''"
proof (intro conjI impI allI)
  assume "CHR ''/'' \<notin> set d"
  then show "fix_ocr_date_errors d = d" by (simp add: fix_ocr_date_errors_def)
next
  show "fix_ocr_date_errors ''42/29/2025'' = ''12/29/2025''" by code_simp
next
  assume m: "CHR ''/'' \<notin> set m" and "py_int m = None"
  then show "fix_ocr_date_errors (m @ CHR ''/'' # r) = m @ CHR ''/'' # r"
    by (simp add: fix_ocr_date_errors_parts)
next
  fix k assume m: "CHR ''/'' \<notin> set m" and k: "py_int m = Some k"
  note p = fix_ocr_date_errors_parts [OF m, of r, unfolded k option.case]
  have s10: "str_int 10 = ''10''" and s11: "str_int 11 = ''11''" and s12: "str_int 12 = ''12''"
    by code_simp+
  {
    assume "k \<le> 12"
    then show "fix_ocr_date_errors (m @ CHR ''/'' # r) = m @ CHR ''/'' # r"
      by (simp add: p)
  }
  {
    assume "k = 42"
    then show "fix_ocr_date_errors (m @ CHR ''/'' # r) = ''12'' @ CHR ''/'' # r"
      by (simp add: p corrections_def s12 zfill_def)
  }
  {
    assume "k = 41"
    then show "fix_ocr_date_errors (m @ CHR ''/'' # r) = ''11'' @ CHR ''/'' # r"
      by (simp add: p corrections_def s11 zfill_def)
  }
  {
    assume "k = 40"
    then show "fix_ocr_date_errors (m @ CHR ''/'' # r) = ''10'' @ CHR ''/'' # r"
      by (simp add: p corrections_def s10 zfill_def)
  }
  {
    assume "k = 14 \<or> k = 13"
    then show "fix_ocr_date_errors (m @ CHR ''/'' # r) = ''11'' @ CHR ''/'' # r"
      by (auto simp add: p corrections_def s11 zfill_def)
  }
  {
    assume b: "12 < k \<and> k < 100 \<and> k \<notin> {42, 41, 40, 14, 13}
               \<and> 1 < (k div 10) mod 10 \<and> k mod 10 \<le> 2"
    then have "(k div 10) mod 10 = k div 10" by (simp add: tens_digit)
    with b have a: "12 < k \<and> k \<notin> {42, 41, 40, 14, 13} \<and> 1 < k div 10 \<and> k mod 10 \<le> 2"
      by simp
    then have t: "map_of corrections k = None" by (simp add: corrections_def)
    from a have "k mod 10 \<le> 2" by simp
    moreover have "0 \<le> k mod 10" by simp
    ultimately have "k mod 10 = 0 \<or> k mod 10 = 1 \<or> k mod 10 = 2" by linarith
    then show "fix_ocr_date_errors (m @ CHR ''/'' # r) =
        (if k mod 10 = 0 then ''10'' else if k mod 10 = 1 then ''11'' else ''12'') @ CHR ''/'' # r"
      using a by (auto simp add: p t s10 s11 s12)
  }
  {
    assume b: "12 < k \<and> k < 100 \<and> k \<notin> {42, 41, 40, 14, 13}
               \<and> \<not> (1 < (k div 10) mod 10 \<and> k mod 10 \<le> 2)"
    then have "(k div 10) mod 10 = k div 10" by (simp add: tens_digit)
    with b have a: "12 < k \<and> k \<notin> {42, 41, 40, 14, 13} \<and> \<not> (1 < k div 10 \<and> k mod 10 \<le> 2)"
      by simp
    then have t: "map_of corrections k = None" by (simp add: corrections_def)
    from a have n: "\<not> (1 < k div 10 \<and> k mod 10 \<le> 2)" and g: "12 < k" by simp_all
    show "fix_ocr_date_errors (m @ CHR ''/'' # r) = m @ CHR ''/'' # r"
      unfolding p t option.case using n g by (simp only: if_True if_False)
  }
qed

theorem fix_ocr_date_errors_cases_witness:
  "CHR ''/'' \<notin> set ''52'' \<and> py_int ''52'' = Some 52
   \<and> fix_ocr_date_errors (''52'' @ CHR ''/'' # ''29/2025'') = ''12'' @ CHR ''/'' # ''29/2025''"
proof -
  have m: "CHR ''/'' \<notin> set ''52''" by simp
  have k: "py_int ''52'' = Some 52" by code_simp
  have c: "12 < (52::int) \<and> (52::int) < 100 \<and> (52::int) \<notin> {42, 41, 40, 14, 13}
           \<and> 1 < ((52::int) div 10) mod 10 \<and> (52::int) mod 10 \<le> 2"
    by simp
  from fix_ocr_date_errors_cases [of "[]" "''52''" "''29/2025''"] m k c
  have "fix_ocr_date_errors (''52'' @ CHR ''/'' # ''29/2025'') =
      (if (52::int) mod 10 = 0 then ''10'' else if (52::int) mod 10 = 1 then ''11'' else ''12'') @ CHR ''/'' # ''29/2025''"
    by blast
  then show ?thesis using m k by simp
qed

text \<open>
  A month of three digits, which the call site cannot pass, is outside the case analysis:
  its quotient by 10 is not a digit, and the month 100 is rewritten to 10.
\<close>

lemma fix_ocr_date_errors_three_digit_month:
  "fix_ocr_date_errors ''100/1/2025'' = ''10/1/2025''"
  by code_simp

text \<open>
  The whitespace that \<open>int\<close> accepts around the month is kept when the date is returned
  unchanged and lost when the month is rewritten; a month that \<open>int\<close> refuses, such as one
  that starts with the separator 0x1C, leaves the date as it is.
\<close>

lemma fix_ocr_date_errors_int_whitespace:
  "fix_ocr_date_errors '' 42/29/2025'' = ''12/29/2025''
   \<and> fix_ocr_date_errors '' 07/29/2025'' = '' 07/29/2025''
   \<and> py_int (CHR 0x1C # ''42'') = None
   \<and> fix_ocr_date_errors (CHR 0x1C # ''42/29/2025'') = CHR 0x1C # ''42/29/2025''"
  by code_simp

section \<open>Properties of the validator\<close>

lemma ratio_9_10:
  "0 < n \<Longrightarrow> 10 * n < 2 ^ 52 \<Longrightarrow> ratio k n < round64 (9 / 10) \<longleftrightarrow> 10 * k < 9 * n"
  unfolding ratio_def using round64_ratio_less [of n 9 k] by simp

lemma ratio_8_10:
  "0 < n \<Longrightarrow> 10 * n < 2 ^ 52 \<Longrightarrow> ratio k n < round64 (8 / 10) \<longleftrightarrow> 10 * k < 8 * n"
  unfolding ratio_def using round64_ratio_less [of n 8 k] by simp

lemma ratio_5_10:
  "0 < n \<Longrightarrow> 10 * n < 2 ^ 52 \<Longrightarrow> ratio k n < round64 (5 / 10) \<longleftrightarrow> 10 * k < 5 * n"
  unfolding ratio_def using round64_ratio_less [of n 5 k] by simp

lemma validate_nonempty:
  assumes "ts \<noteq> []" and small: "10 * length ts < 2 ^ 52"
  shows "score (validate_transactions ts m) = max 0 (100 - spec_deductions ts)"
    and "valid (validate_transactions ts m) = (50 \<le> 100 - spec_deductions ts)"
proof -
  have n: "0 < length ts" using assms(1) by simp
  have pl: "(\<lambda>t. case Place t of Some p \<Rightarrow> p | None \<Rightarrow> []) = place_of"
    by (simp add: place_of_def fun_eq_iff)
  have ne: "map place_of ts \<noteq> []" using assms(1) by simp
  have r1: "(ratio (length (filter has_valid_date ts)) (length ts) < round64 (9 / 10))
            = (10 * length (filter has_valid_date ts) < 9 * length ts)"
    by (rule ratio_9_10 [OF n small])
  have r2: "(ratio (length (filter has_valid_amount ts)) (length ts) < round64 (9 / 10))
            = (10 * length (filter has_valid_amount ts) < 9 * length ts)"
    by (rule ratio_9_10 [OF n small])
  have r3: "(ratio (length (filter has_valid_description ts)) (length ts) < round64 (8 / 10))
            = (10 * length (filter has_valid_description ts) < 8 * length ts)"
    by (rule ratio_8_10 [OF n small])
  have r5: "(ratio (card (set (map place_of ts))) (length (map place_of ts)) < round64 (5 / 10))
            = (2 * card (set (map place_of ts)) < length ts)"
    using ratio_5_10 [OF n small, of "card (set (map place_of ts))"] by auto
  have v: "validate_transactions ts m =
      \<lparr>valid = (50 \<le> 100 - spec_deductions ts), score = max 0 (100 - spec_deductions ts),
       transaction_count = length ts, issues = issues (validate_transactions ts m), method_used = Some m\<rparr>"
    unfolding validate_transactions_def Let_def pl
    apply (simp only: assms(1) if_False ne if_True r1 r2 r3 r5 not_False_eq_True)
    apply (simp add: spec_deductions_def)
    done
  show "score (validate_transactions ts m) = max 0 (100 - spec_deductions ts)"
    by (subst v) simp
  show "valid (validate_transactions ts m) = (50 \<le> 100 - spec_deductions ts)"
    by (subst v) simp
qed

text \<open>
  A list whose entries are all valid and pairwise distinct has every quotient equal to 1,
  whatever its length.
\<close>

lemma round64_one: "round64 1 = 1"
  by code_simp

lemma threshold_le_one:
  assumes "0 < c" "c \<le> 1"
  shows "\<not> 1 < round64 c"
  using round64_mono [OF assms] by (simp add: round64_one)

lemma ratio_same: "0 < n \<Longrightarrow> ratio n n = 1"
  by (simp add: ratio_def round64_one)

lemma validate_clean:
  assumes "3 \<le> length ts"
    and "\<forall>t \<in> set ts. has_valid_date t \<and> has_valid_amount t \<and> has_valid_description t"
    and "distinct (map place_of ts)"
  shows "score (validate_transactions ts m) = 100" and "valid (validate_transactions ts m)"
proof -
  have n: "0 < length ts" and ne: "ts \<noteq> []" and n3: "\<not> length ts < 3" using assms(1) by auto
  have pl: "(\<lambda>t. case Place t of Some p \<Rightarrow> p | None \<Rightarrow> []) = place_of"
    by (simp add: place_of_def fun_eq_iff)
  have f1: "filter has_valid_date ts = ts" using assms(2) by (simp add: filter_id_conv)
  have f2: "filter has_valid_amount ts = ts" using assms(2) by (simp add: filter_id_conv)
  have f3: "filter has_valid_description ts = ts" using assms(2) by (simp add: filter_id_conv)
  have c: "card (set (map place_of ts)) = length ts"
    using distinct_card [OF assms(3)] by simp
  have r: "ratio (length ts) (length ts) = 1" by (rule ratio_same [OF n])
  have t9: "\<not> 1 < round64 (9 / 10)" by (rule threshold_le_one) simp_all
  have t8: "\<not> 1 < round64 (8 / 10)" by (rule threshold_le_one) simp_all
  have t5: "\<not> 1 < round64 (5 / 10)" by (rule threshold_le_one) simp_all
  have v: "validate_transactions ts m =
      \<lparr>valid = True, score = 100, transaction_count = length ts, issues = [], method_used = Some m\<rparr>"
    unfolding validate_transactions_def Let_def pl f1 f2 f3 c length_map
    by (simp only: ne n3 r t9 t8 t5 if_False if_True not_False_eq_True map_is_Nil_conv) simp
  show "score (validate_transactions ts m) = 100" by (subst v) simp
  show "valid (validate_transactions ts m)" by (subst v) simp
qed

text \<open>
  C3. The validator gives score 0 and \<open>valid = False\<close> for the empty list. For a non-empty
  list the score is 100 less the deductions (20 for dates, 30 for amounts, 30 for
  descriptions, 20 for fewer than 3 transactions, 10 for duplicate descriptions, each
  percentage read as the exact quotient of the counts), clamped at 0, and \<open>valid\<close> holds
  exactly if the score before clamping is at least 50. The quotients of the source are
  floats; they fall below their thresholds exactly when the exact quotients do for every
  list of fewer than \<open>2^52 / 10\<close> transactions, more than the memory of a machine holds. A
  list of at least 3 transactions that all have a valid date, a positive amount and a
  valid description, with pairwise distinct descriptions, scores exactly 100, whatever its
  length.
\<close>

theorem validate_transactions_scoring:
  "score (validate_transactions [] m) = 0 \<and> \<not> valid (validate_transactions [] m)
   \<and> (ts \<noteq> [] \<and> 10 * length ts < 2 ^ 52 \<longrightarrow>
        score (validate_transactions ts m) = max 0 (100 - spec_deductions ts)
      \<and> valid (validate_transactions ts m) = (50 \<le> 100 - spec_deductions ts))
   \<and> (3 \<le> length ts
      \<and> (\<forall>t \<in> set ts. has_valid_date t \<and> has_valid_amount t \<and> has_valid_description t)
      \<and> distinct (map place_of ts) \<longrightarrow>
        score (validate_transactions ts m) = 100 \<and> valid (validate_transactions ts m))"
proof (intro conjI impI)
  show "score (validate_transactions [] m) = 0" by (simp add: validate_transactions_def)
  show "\<not> valid (validate_transactions [] m)" by (simp add: validate_transactions_def)
next
  assume "ts \<noteq> [] \<and> 10 * length ts < 2 ^ 52"
  then have "ts \<noteq> []" and "10 * length ts < 2 ^ 52" by simp_all
  then show "score (validate_transactions ts m) = max 0 (100 - spec_deductions ts)"
    and "valid (validate_transactions ts m) = (50 \<le> 100 - spec_deductions ts)"
    by (rule validate_nonempty)+
next
  assume a: "3 \<le> length ts
      \<and> (\<forall>t \<in> set ts. has_valid_date t \<and> has_valid_amount t \<and> has_valid_description t)
      \<and> distinct (map place_of ts)"
  then show "score (validate_transactions ts m) = 100" and "valid (validate_transactions ts m)"
    by (simp_all add: validate_clean)
qed

theorem validate_transactions_scoring_witness:
  "10 * length [sample_tx ''01/15/2025'' ''Walmart'' (round64 (4523 / 100)),
                sample_tx ''01/16/2025'' ''Target'' 12,
                sample_tx ''1/7/2025'' ''Cash Wise'' (1 / 2)] < (2::nat) ^ 52
   \<and> score (validate_transactions
            [sample_tx ''01/15/2025'' ''Walmart'' (round64 (4523 / 100)),
             sample_tx ''01/16/2025'' ''Target'' 12,
             sample_tx ''1/7/2025'' ''Cash Wise'' (1 / 2)] ''OCR'') = 100
   \<and> valid (validate_transactions
            [sample_tx ''01/15/2025'' ''Walmart'' (round64 (4523 / 100)),
             sample_tx ''01/16/2025'' ''Target'' 12,
             sample_tx ''1/7/2025'' ''Cash Wise'' (1 / 2)] ''OCR'')"
proof -
  let ?ts = "[sample_tx ''01/15/2025'' ''Walmart'' (round64 (4523 / 100)),
              sample_tx ''01/16/2025'' ''Target'' 12,
              sample_tx ''1/7/2025'' ''Cash Wise'' (1 / 2)]"
  have l: "3 \<le> length ?ts" and b: "10 * length ?ts < (2::nat) ^ 52" by simp_all
  have d1: "has_valid_date (sample_tx ''01/15/2025'' ''Walmart'' (round64 (4523 / 100)))" by code_simp
  have d2: "has_valid_date (sample_tx ''01/16/2025'' ''Target'' 12)" by code_simp
  have d3: "has_valid_date (sample_tx ''1/7/2025'' ''Cash Wise'' (1 / 2))" by code_simp
  have a1: "has_valid_amount (sample_tx ''01/15/2025'' ''Walmart'' (round64 (4523 / 100)))" by code_simp
  have a2: "has_valid_amount (sample_tx ''01/16/2025'' ''Target'' 12)" by code_simp
  have a3: "has_valid_amount (sample_tx ''1/7/2025'' ''Cash Wise'' (1 / 2))" by code_simp
  have p1: "has_valid_description (sample_tx ''01/15/2025'' ''Walmart'' (round64 (4523 / 100)))" by code_simp
  have p2: "has_valid_description (sample_tx ''01/16/2025'' ''Target'' 12)" by code_simp
  have p3: "has_valid_description (sample_tx ''1/7/2025'' ''Cash Wise'' (1 / 2))" by code_simp
  have v: "\<forall>t \<in> set ?ts. has_valid_date t \<and> has_valid_amount t \<and> has_valid_description t"
    using d1 d2 d3 a1 a2 a3 p1 p2 p3 by simp
  have u: "distinct (map place_of ?ts)" by code_simp
  show ?thesis
    using validate_transactions_scoring [of "''OCR''" ?ts] l b v u by blast
qed

section \<open>Properties of the classifier\<close>

lemma classify_one_credit_card:
  "snd (classify_one self False t) = Expenses
   \<and> (fst (classify_one self False t) = t \<or> fst (classify_one self False t) = t\<lparr>manual_review := Some True\<rparr>)"
  by (simp add: classify_one_def Let_def)

text \<open>
  C5. For a credit-card statement (\<open>is_bank_account = False\<close>) the income list is empty
  and the expenses list holds every input transaction, in order: entry \<open>i\<close> is transaction
  \<open>i\<close> of the input, on which the loop may have set the manual-review flag.
\<close>

theorem classify_transactions_credit_card:
  "fst (classify_transactions self ts False) = []
   \<and> length (snd (classify_transactions self ts False)) = length ts
   \<and> (\<forall>i < length ts.
         snd (classify_transactions self ts False) ! i = ts ! i
       \<or> snd (classify_transactions self ts False) ! i = (ts ! i)\<lparr>manual_review := Some True\<rparr>)"
proof -
  have b: "\<And>t. snd (classify_one self False t) = Expenses"
    using classify_one_credit_card by blast
  have i: "filter (\<lambda>(t, b). b = Income) (map (classify_one self False) ts) = []"
    by (simp add: filter_empty_conv case_prod_beta b)
  have e: "filter (\<lambda>(t, b). b = Expenses) (map (classify_one self False) ts)
           = map (classify_one self False) ts"
    by (simp add: filter_id_conv case_prod_beta b)
  have s: "snd (classify_transactions self ts False) = map (\<lambda>t. fst (classify_one self False t)) ts"
    by (simp add: classify_transactions_def Let_def e)
  have f: "fst (classify_transactions self ts False) = []"
    by (simp add: classify_transactions_def Let_def i)
  have n: "\<forall>i < length ts. fst (classify_one self False (ts ! i)) = ts ! i
             \<or> fst (classify_one self False (ts ! i)) = (ts ! i)\<lparr>manual_review := Some True\<rparr>"
    using classify_one_credit_card [of self] by blast
  show ?thesis
    unfolding s f using n by simp
qed

theorem classify_transactions_credit_card_witness:
  "(0::nat) < length [sample_tx ''01/15/2025'' ''VENMO PAYMENT'' 20]
   \<and> fst (classify_transactions (offline_parser\<lparr>payment_apps := [''VENMO'']\<rparr>)
         [sample_tx ''01/15/2025'' ''VENMO PAYMENT'' 20] False) = []
   \<and> snd (classify_transactions (offline_parser\<lparr>payment_apps := [''VENMO'']\<rparr>)
         [sample_tx ''01/15/2025'' ''VENMO PAYMENT'' 20] False) ! 0
       = (sample_tx ''01/15/2025'' ''VENMO PAYMENT'' 20)\<lparr>manual_review := Some True\<rparr>"
proof -
  let ?P = "offline_parser\<lparr>payment_apps := [''VENMO'']\<rparr>"
  let ?t = "sample_tx ''01/15/2025'' ''VENMO PAYMENT'' 20"
  have l: "(0::nat) < length [?t]" by simp
  have n: "manual_review (snd (classify_transactions ?P [?t] False) ! 0) = Some True"
    by code_simp
  have m: "manual_review ?t = None" by (simp add: sample_tx_def empty_tx_def)
  from classify_transactions_credit_card [of ?P "[?t]"] l
  have "snd (classify_transactions ?P [?t] False) ! 0 = [?t] ! 0
        \<or> snd (classify_transactions ?P [?t] False) ! 0 = ([?t] ! 0)\<lparr>manual_review := Some True\<rparr>"
    by blast
  then have "snd (classify_transactions ?P [?t] False) ! 0 = ?t\<lparr>manual_review := Some True\<rparr>"
    using n m by auto
  moreover have "fst (classify_transactions ?P [?t] False) = []"
    using classify_transactions_credit_card [of ?P "[?t]"] by blast
  ultimately show ?thesis using l by blast
qed

section \<open>Properties of the merchant cache\<close>

text \<open>
  C7 (as amended). For a raw name of at least 3 characters whose upper-cased, trimmed form
  is a key of the merchant cache, the cleaning returns the cached value and leaves the
  parser, hence the cache, as it was, whatever the amount and the date are; so two calls
  with that name on the same cache give the same result.
\<close>

theorem clean_merchant_name_with_context_cache_hit:
  assumes "3 \<le> length name"
    and "merchant_cache self (strip (upper name)) = Some cached"
  shows "clean_merchant_name_with_context self name amount date = (cached, self)
       \<and> clean_merchant_name_with_context self name amount date
         = clean_merchant_name_with_context self name amount' date'"
  using assms by (auto simp: clean_merchant_name_with_context_def Let_def)

theorem clean_merchant_name_with_context_cache_hit_witness:
  "3 \<le> length ''walmart #4352 ''
   \<and> merchant_cache (offline_parser\<lparr>merchant_cache := [''WALMART #4352'' \<mapsto> ''Walmart'']\<rparr>)
        (strip (upper ''walmart #4352 '')) = Some ''Walmart''
   \<and> fst (clean_merchant_name_with_context
            (offline_parser\<lparr>merchant_cache := [''WALMART #4352'' \<mapsto> ''Walmart'']\<rparr>)
            ''walmart #4352 '' (PyFloat 50) (Some ''01/15/2025'')) = ''Walmart''"
proof -
  let ?P = "offline_parser\<lparr>merchant_cache := [''WALMART #4352'' \<mapsto> ''Walmart'']\<rparr>"
  have l: "3 \<le> length ''walmart #4352 ''" by simp
  have k: "strip (upper ''walmart #4352 '') = ''WALMART #4352''" by code_simp
  have c: "merchant_cache ?P (strip (upper ''walmart #4352 '')) = Some ''Walmart''"
    unfolding k by simp
  show ?thesis
    using clean_merchant_name_with_context_cache_hit [OF l c, of "PyFloat 50" "Some ''01/15/2025''"] l c
    by simp
qed

text \<open>
  A name shorter than 3 characters is returned as it is, before the cache is looked at:
  with \<open>AB\<close> cached as \<open>Alpha Beta\<close>, cleaning \<open>ab\<close> gives \<open>ab\<close>.
\<close>

theorem clean_merchant_name_with_context_short_counterexample:
  "merchant_cache (offline_parser\<lparr>merchant_cache := [''AB'' \<mapsto> ''Alpha Beta'']\<rparr>)
        (strip (upper ''ab'')) = Some ''Alpha Beta''
   \<and> fst (clean_merchant_name_with_context
            (offline_parser\<lparr>merchant_cache := [''AB'' \<mapsto> ''Alpha Beta'']\<rparr>)
            ''ab'' (PyFloat 50) (Some ''01/15/2025'')) = ''ab''
   \<and> fst (clean_merchant_name_with_context
            (offline_parser\<lparr>merchant_cache := [''AB'' \<mapsto> ''Alpha Beta'']\<rparr>)
            ''ab'' (PyFloat 50) (Some ''01/15/2025'')) \<noteq> ''Alpha Beta''"
proof -
  have k: "strip (upper ''ab'') = ''AB''" by code_simp
  show ?thesis
    unfolding k by (simp add: clean_merchant_name_with_context_def)
qed

section \<open>Properties of the transaction builder\<close>

lemma build_transaction_Some:
  assumes "fst (build_transaction self date description amounts) = Some t"
  shows "\<exists>tr. t = assign_amounts amounts tr \<and> Amount tr = None \<and> Balance tr = None
             \<and> Debits tr = None \<and> Credits tr = None"
  using assms
  by (auto simp: build_transaction_def Let_def empty_tx_def split: if_splits prod.splits)

text \<open>
  C8. In a transaction accepted by \<open>_build_transaction\<close> the amounts are mapped by their
  number: one amount gives \<open>Amount\<close> only; two give \<open>Amount\<close> and \<open>Balance\<close>; three or more
  give \<open>Debits\<close> (the first if positive, else \<open>None\<close>), \<open>Credits\<close> (the second if positive,
  else \<open>None\<close>) and \<open>Balance\<close> (the third), and no \<open>Amount\<close>.
\<close>

theorem build_transaction_amounts:
  assumes "fst (build_transaction self date description amounts) = Some t"
  shows "(length amounts = 1 \<longrightarrow>
            Amount t = Some (PyFloat (amounts ! 0))
          \<and> Balance t = None \<and> Debits t = None \<and> Credits t = None)
       \<and> (length amounts = 2 \<longrightarrow>
            Amount t = Some (PyFloat (amounts ! 0)) \<and> Balance t = Some (PyFloat (amounts ! 1))
          \<and> Debits t = None \<and> Credits t = None)
       \<and> (3 \<le> length amounts \<longrightarrow>
            Debits t = Some (if amounts ! 0 > 0 then PyFloat (amounts ! 0) else PyNone)
          \<and> Credits t = Some (if amounts ! 1 > 0 then PyFloat (amounts ! 1) else PyNone)
          \<and> Balance t = Some (PyFloat (amounts ! 2))
          \<and> Amount t = None)"
proof -
  from build_transaction_Some [OF assms] obtain tr where
    t: "t = assign_amounts amounts tr" and
    e: "Amount tr = None" "Balance tr = None" "Debits tr = None" "Credits tr = None"
    by blast
  show ?thesis
    unfolding t using e by (simp add: assign_amounts_def)
qed

theorem build_transaction_amounts_witness:
  "fst (build_transaction offline_parser ''01/15/2025'' ''PAYROLL DEPOSIT'' [0, 500, 3 / 2]) \<noteq> None
   \<and> (3::nat) \<le> length [0::rat, 500, 3 / 2]
   \<and> Debits (the (fst (build_transaction offline_parser ''01/15/2025'' ''PAYROLL DEPOSIT'' [0, 500, 3 / 2])))
       = Some PyNone
   \<and> Credits (the (fst (build_transaction offline_parser ''01/15/2025'' ''PAYROLL DEPOSIT'' [0, 500, 3 / 2])))
       = Some (PyFloat 500)
   \<and> Amount (the (fst (build_transaction offline_parser ''01/15/2025'' ''PAYROLL DEPOSIT'' [0, 500, 3 / 2])))
       = None"
proof -
  let ?r = "fst (build_transaction offline_parser ''01/15/2025'' ''PAYROLL DEPOSIT'' [0, 500, 3 / 2])"
  have n: "?r \<noteq> None" by code_simp
  then obtain t where t: "?r = Some t" by blast
  have l: "(3::nat) \<le> length [0::rat, 500, 3 / 2]" by simp
  from build_transaction_amounts [OF t] l
  have "Debits t = Some (if [0::rat, 500, 3 / 2] ! 0 > 0 then PyFloat ([0, 500, 3 / 2] ! 0) else PyNone)
      \<and> Credits t = Some (if [0::rat, 500, 3 / 2] ! 1 > 0 then PyFloat ([0, 500, 3 / 2] ! 1) else PyNone)
      \<and> Amount t = None"
    by blast
  then show ?thesis using n l t by simp
qed

section \<open>Properties of the reconciler\<close>

text \<open>
  The tolerance test is made on floats. It holds whenever the exact difference of the two
  amounts is at most \<open>0.02 - 2^-58\<close>: the float below the literal \<open>0.02\<close> lies above that.
\<close>

lemma round64_minus: "round64 (- x) = - round64 x"
  by (simp add: round64_def Let_def sgn_minus)

lemma abs_round64: "\<bar>round64 x\<bar> = round64 \<bar>x\<bar>"
proof (cases "0 \<le> x")
  case True
  then have "0 \<le> round64 x" using round64_pos [of x] by (cases "x = 0") (simp_all add: less_le)
  with True show ?thesis by simp
next
  case False
  then have "0 < - x" by simp
  from round64_pos [OF this] have "round64 x < 0" by (simp add: round64_minus)
  with False show ?thesis by (simp add: round64_minus)
qed

lemma below_tolerance: "round64 (2 / 100 - 1 / 2 ^ 58) < round64 (2 / 100)"
  by code_simp

lemma amounts_close_exact:
  assumes "\<bar>x - y\<bar> \<le> 2 / 100 - 1 / 2 ^ 58"
  shows "amounts_close x y"
proof (cases "x = y")
  case True
  then show ?thesis using round64_pos [of "2 / 100"] by (simp add: amounts_close_def)
next
  case False
  then have "0 < \<bar>x - y\<bar>" by simp
  from round64_mono [OF this assms] below_tolerance
  show ?thesis by (simp add: amounts_close_def abs_round64)
qed

lemma enumerate_from0_conv: "enumerate_from0 xs = map (\<lambda>j. (j, xs ! j)) [0..<length xs]"
  unfolding enumerate_from0_def
  by (rule nth_equalityI) auto

lemma in_enumerate_from0: "(j, b) \<in> set (enumerate_from0 xs) \<longleftrightarrow> j < length xs \<and> b = xs ! j"
  by (auto simp: enumerate_from0_conv)

lemma find_match_Some:
  assumes "find_match d a M ibs = Inr (Some (j, b))"
  shows "(j, b) \<in> set ibs \<and> j \<notin> M \<and> d = date_of b
       \<and> (\<exists>x y. a = PyFloat x \<and> match_amount b = PyFloat y \<and> amounts_close x y)"
  using assms
proof (induction ibs)
  case Nil
  then show ?case by simp
next
  case (Cons ib ibs)
  obtain k c where ib: "ib = (k, c)" by (cases ib)
  show ?case
    using Cons unfolding ib
    by (auto simp: py_float_def split: if_splits sum.splits pynum.splits)
qed

lemma pass1_step_cases:
  assumes "pass1_step self ma mb B M a = Inr (r, idx, self')"
  shows "(idx = None \<and> r = tag_only ma a \<and> self' = self)
       \<or> (\<exists>j. idx = Some j \<and> j < length B \<and> j \<notin> M \<and> tx_truthy (B ! j)
              \<and> find_match (date_of a) (match_amount a) M (enumerate_from0 B) = Inr (Some (j, B ! j))
              \<and> merge_matched self ma mb a (B ! j) = (r, self'))"
proof (cases "find_match (date_of a) (match_amount a) M (enumerate_from0 B)")
  case (Inl e)
  with assms show ?thesis by (simp add: pass1_step_def)
next
  case (Inr found)
  show ?thesis
  proof (cases found)
    case None
    with Inr assms show ?thesis by (simp add: pass1_step_def tag_only_def)
  next
    case (Some jb)
    obtain j b where jb: "jb = (j, b)" by (cases jb)
    from find_match_Some [OF Inr [unfolded Some jb]]
    have m: "(j, b) \<in> set (enumerate_from0 B)" and nm: "j \<notin> M" by simp_all
    then have b: "j < length B" "b = B ! j" by (simp_all add: in_enumerate_from0)
    show ?thesis
      using assms Inr Some jb b nm
      by (auto simp: pass1_step_def tag_only_def split: if_splits prod.splits)
  qed
qed

lemma merge_matched_shape:
  assumes "merge_matched self ma mb a b = (r, self')"
  shows "r = a\<lparr>Place := Place r, Place_Original := Place_Original r,
              extraction_method := Some (matched_tag ma mb)\<rparr>"
  using assms by (auto simp: merge_matched_def Let_def matched_tag_def split: prod.splits)

lemma pass1_step_emitted:
  assumes "pass1_step self ma mb B M a = Inr (r, idx, self')"
  shows "emitted_for ma mb a (r, idx)"
  using pass1_step_cases [OF assms] merge_matched_shape
  by (auto simp: emitted_for_def)

lemma pass1_structure:
  assumes "pass1 self ma mb B M A = Inr (steps, M', self')"
  shows "list_all2 (emitted_for ma mb) A steps
       \<and> M' = M \<union> set (matched_indices (map snd steps))
       \<and> distinct (matched_indices (map snd steps))
       \<and> set (matched_indices (map snd steps)) \<inter> M = {}
       \<and> set (matched_indices (map snd steps)) \<subseteq> {..<length B}"
  using assms
proof (induction A arbitrary: self M steps)
  case Nil
  then show ?case by (simp add: matched_indices_def)
next
  case (Cons a A)
  from Cons.prems obtain r idx self1 where
    st: "pass1_step self ma mb B M a = Inr (r, idx, self1)"
    by (auto split: sum.splits)
  let ?M1 = "case idx of Some i \<Rightarrow> insert i M | None \<Rightarrow> M"
  from Cons.prems st obtain steps1 where
    rest: "pass1 self1 ma mb B ?M1 A = Inr (steps1, M', self')" and
    steps: "steps = (r, idx) # steps1"
    by (auto split: sum.splits)
  note ih = Cons.IH [OF rest]
  note em = pass1_step_emitted [OF st]
  show ?case
  proof (cases idx)
    case None
    with ih em steps show ?thesis by (simp add: matched_indices_def)
  next
    case (Some j)
    from pass1_step_cases [OF st] Some have j: "j < length B" "j \<notin> M" by auto
    from ih Some have d: "j \<notin> set (matched_indices (map snd steps1))" by auto
    show ?thesis
      using ih em steps Some j d by (auto simp: matched_indices_def)
  qed
qed

lemma pass2_conv:
  "pass2 mb B M = map (\<lambda>j. tag_only mb (B ! j)) (filter (\<lambda>j. j \<notin> M) [0..<length B])"
  by (simp add: pass2_def enumerate_from0_conv filter_map comp_def tag_only_def)

lemma length_unmatched:
  assumes "distinct js" "set js \<subseteq> {..<n}"
  shows "length (filter (\<lambda>j. j \<notin> set js) [0..<n]) = n - length js"
proof -
  have "length (filter (\<lambda>j. j \<notin> set js) [0..<n]) = card ({j. j \<notin> set js} \<inter> set [0..<n])"
    by (rule distinct_length_filter) simp
  also have "{j. j \<notin> set js} \<inter> set [0..<n] = {..<n} - set js" by auto
  also have "card ({..<n} - set js) = card {..<n} - card (set js)"
    using assms(2) by (intro card_Diff_subset) auto
  also have "\<dots> = n - length js" using distinct_card [OF assms(1)] by simp
  finally show ?thesis .
qed

lemma cross_reference_unfold:
  assumes "A \<noteq> []" "B \<noteq> []"
    and "cross_reference_transactions self A B ma mb = Inr (out, self')"
  shows "\<exists>steps M. pass1 self ma mb B {} A = Inr (steps, M, self')
                 \<and> out = sort_key date_of (map fst steps @ pass2 mb B M)"
  using assms by (auto simp: cross_reference_transactions_def split: sum.splits)

text \<open>
  C10 (as amended). For two non-empty lists on which \<open>cross_reference_transactions\<close>
  returns, nothing is dropped and nothing is duplicated. There is one step per element of
  the first list, in order, which is either that element tagged as unique to the first
  method or that element merged with one element of the second list; no element of the
  second list is merged twice; the output is a permutation of the records of these steps
  together with the unmerged elements of the second list, each tagged as unique to the
  second method; so its length is \<open>len(A) + len(B) - m\<close> for \<open>m\<close> merged pairs.
\<close>

theorem cross_reference_accounts:
  assumes "A \<noteq> []" "B \<noteq> []"
    and "cross_reference_transactions self A B ma mb = Inr (out, self')"
  shows "\<exists>steps.
           list_all2 (emitted_for ma mb) A steps
         \<and> distinct (matched_indices (map snd steps))
         \<and> set (matched_indices (map snd steps)) \<subseteq> {..<length B}
         \<and> mset out = mset (map fst steps)
              + mset (map (\<lambda>j. tag_only mb (B ! j))
                       (filter (\<lambda>j. j \<notin> set (matched_indices (map snd steps))) [0..<length B]))
         \<and> length out = length A + length B - length (matched_indices (map snd steps))"
proof -
  from cross_reference_unfold [OF assms] obtain steps M where
    p: "pass1 self ma mb B {} A = Inr (steps, M, self')" and
    out: "out = sort_key date_of (map fst steps @ pass2 mb B M)" by blast
  let ?js = "matched_indices (map snd steps)"
  from pass1_structure [OF p] have
    em: "list_all2 (emitted_for ma mb) A steps" and
    M: "M = set ?js" and d: "distinct ?js" and sub: "set ?js \<subseteq> {..<length B}"
    by simp_all
  have len: "length steps = length A" using em by (simp add: list_all2_lengthD)
  have ms: "mset out = mset (map fst steps)
              + mset (map (\<lambda>j. tag_only mb (B ! j)) (filter (\<lambda>j. j \<notin> set ?js) [0..<length B]))"
    unfolding out by (simp add: pass2_conv M)
  have "length out = length steps + length (filter (\<lambda>j. j \<notin> set ?js) [0..<length B])"
    unfolding out by (simp add: pass2_conv M)
  also have "\<dots> = length A + (length B - length ?js)"
    using len length_unmatched [OF d sub] by simp
  also have "\<dots> = length A + length B - length ?js"
  proof -
    have "length ?js \<le> length B"
      using distinct_card [OF d] card_mono [OF _ sub] by simp
    then show ?thesis by simp
  qed
  finally have l: "length out = length A + length B - length ?js" .
  show ?thesis using em d sub ms l by blast
qed

lemma find_match_first:
  assumes "find_match d (PyFloat x) M ibs = Inr found"
    and "p < length ibs" "ibs ! p = (j, b)" "j \<notin> M" "d = date_of b"
    and "match_amount b = PyFloat y" "amounts_close x y"
    and "\<forall>q < p. fst (ibs ! q) \<notin> M \<longrightarrow>
           \<not> (date_of (snd (ibs ! q)) = d
              \<and> (\<exists>z. match_amount (snd (ibs ! q)) = PyFloat z \<and> amounts_close x z))"
  shows "found = Some (j, b)"
  using assms
proof (induction ibs arbitrary: p)
  case Nil
  then show ?case by simp
next
  case (Cons ib ibs)
  obtain k c where ib: "ib = (k, c)" by (cases ib)
  show ?case
  proof (cases p)
    case 0
    with Cons.prems ib show ?thesis by (simp add: py_float_def)
  next
    case (Suc p')
    from Cons.prems(8) Suc have h0: "k \<notin> M \<longrightarrow>
           \<not> (date_of c = d \<and> (\<exists>z. match_amount c = PyFloat z \<and> amounts_close x z))"
      using ib by force
    from Cons.prems(8) Suc have hs: "\<forall>q < p'. fst (ibs ! q) \<notin> M \<longrightarrow>
           \<not> (date_of (snd (ibs ! q)) = d
              \<and> (\<exists>z. match_amount (snd (ibs ! q)) = PyFloat z \<and> amounts_close x z))"
      by force
    from Cons.prems(1) h0 have r: "find_match d (PyFloat x) M ibs = Inr found"
      unfolding ib
      by (auto simp: py_float_def split: if_splits sum.splits pynum.splits)
    from Cons.prems(2,3) Suc have pp: "p' < length ibs" "ibs ! p' = (j, b)" by simp_all
    show ?thesis
      by (rule Cons.IH [OF r pp Cons.prems(4,5,6,7) hs])
  qed
qed

lemma pass1_append:
  "pass1 self ma mb B M (xs @ ys) =
     (case pass1 self ma mb B M xs of
        Inl e \<Rightarrow> Inl e
      | Inr (s1, M1, self1) \<Rightarrow>
          (case pass1 self1 ma mb B M1 ys of
             Inl e \<Rightarrow> Inl e
           | Inr (s2, M2, self2) \<Rightarrow> Inr (s1 @ s2, M2, self2)))"
  by (induction xs arbitrary: self M) (auto split: sum.splits prod.splits)

lemma matched_indices_append:
  "matched_indices (xs @ ys) = matched_indices xs @ matched_indices ys"
  by (simp add: matched_indices_def)

lemma in_matched_indices: "j \<in> set (matched_indices opts) \<longleftrightarrow> Some j \<in> set opts"
  by (induction opts) (auto simp: matched_indices_def split: option.splits)

lemma matched_once:
  assumes "distinct (matched_indices opts)" "i < length opts" "i' < length opts"
    and "opts ! i = Some j" "opts ! i' = Some j"
  shows "i = i'"
proof -
  have aux: "\<And>a b. a < b \<Longrightarrow> b < length opts \<Longrightarrow> opts ! a = Some j \<Longrightarrow> opts ! b = Some j \<Longrightarrow> False"
  proof -
    fix a b assume ab: "a < b" "b < length opts" "opts ! a = Some j" "opts ! b = Some j"
    then have a: "a < length opts" by simp
    have sp: "opts = take a opts @ Some j # drop (Suc a) opts"
      using id_take_nth_drop [OF a] ab(3) by simp
    have "Some j \<in> set (drop (Suc a) opts)"
      using ab by (auto simp: in_set_conv_nth intro!: exI [of _ "b - Suc a"])
    then have "j \<in> set (matched_indices (drop (Suc a) opts))" by (simp add: in_matched_indices)
    moreover have "distinct (matched_indices (take a opts) @ j # matched_indices (drop (Suc a) opts))"
      using assms(1) by (subst (asm) sp) (simp add: matched_indices_append matched_indices_def)
    ultimately show False by simp
  qed
  show ?thesis
    using aux [of i i'] aux [of i' i] assms by (cases i i' rule: linorder_cases) auto
qed

lemma find_match_returns:
  assumes "a \<noteq> PyNone" "\<forall>ib \<in> set ibs. match_amount (snd ib) \<noteq> PyNone"
  shows "\<exists>found. find_match d a M ibs = Inr found"
  using assms
proof (induction ibs)
  case Nil
  then show ?case by simp
next
  case (Cons ib ibs)
  obtain k c where ib: "ib = (k, c)" by (cases ib)
  from Cons obtain x z where "a = PyFloat x" "match_amount c = PyFloat z"
    unfolding ib by (cases a; cases "match_amount c") auto
  with Cons show ?case unfolding ib by (auto simp: py_float_def)
qed

lemma pass1_step_returns:
  assumes "match_amount a \<noteq> PyNone" "\<forall>t \<in> set B. match_amount t \<noteq> PyNone"
  shows "\<exists>res. pass1_step self ma mb B M a = Inr res"
proof -
  have "\<forall>ib \<in> set (enumerate_from0 B). match_amount (snd ib) \<noteq> PyNone"
    using assms(2) by (auto simp: enumerate_from0_conv)
  from find_match_returns [OF assms(1) this]
  obtain found where "find_match (date_of a) (match_amount a) M (enumerate_from0 B) = Inr found"
    by blast
  then show ?thesis
    by (auto simp: pass1_step_def split: option.splits prod.splits)
qed

lemma pass1_returns:
  assumes "\<forall>t \<in> set A. match_amount t \<noteq> PyNone" "\<forall>t \<in> set B. match_amount t \<noteq> PyNone"
  shows "\<exists>res. pass1 self ma mb B M A = Inr res"
  using assms(1)
proof (induction A arbitrary: self M)
  case Nil
  then show ?case by simp
next
  case (Cons a A)
  from Cons.prems have a: "match_amount a \<noteq> PyNone" by simp
  from pass1_step_returns [OF a assms(2)] obtain r idx self1 where
    st: "pass1_step self ma mb B M a = Inr (r, idx, self1)" by (metis prod_cases3)
  from Cons.IH [of self1 "case idx of Some i \<Rightarrow> insert i M | None \<Rightarrow> M"] Cons.prems
  obtain res where "pass1 self1 ma mb B (case idx of Some i \<Rightarrow> insert i M | None \<Rightarrow> M) A = Inr res"
    by auto
  with st show ?case by (cases res) auto
qed

text \<open>
  The function returns whenever no amount it compares is \<open>None\<close>; it raises TypeError
  only on a transaction whose \<open>Debits\<close> or \<open>Credits\<close> holds \<open>None\<close>.
\<close>

lemma cross_reference_returns:
  assumes "\<forall>t \<in> set A. match_amount t \<noteq> PyNone" "\<forall>t \<in> set B. match_amount t \<noteq> PyNone"
  shows "\<exists>out self'. cross_reference_transactions self A B ma mb = Inr (out, self')"
proof -
  from pass1_returns [OF assms] obtain res where
    "pass1 self ma mb B {} A = Inr res" by blast
  then show ?thesis
    by (cases res) (auto simp: cross_reference_transactions_def)
qed

lemma match_amount_sample_tx [simp]: "match_amount (sample_tx d p a) = PyFloat a"
  by (simp add: match_amount_def sample_tx_def)

lemma pass1_length:
  assumes "pass1 self ma mb B M A = Inr (steps, M', self')"
  shows "length steps = length A"
  using pass1_structure [OF assms] by (auto dest: list_all2_lengthD)

lemma pass1_step_find:
  assumes "pass1_step self ma mb B M a = Inr (r, idx, self')"
  shows "\<exists>found. find_match (date_of a) (match_amount a) M (enumerate_from0 B) = Inr found"
  using assms by (auto simp: pass1_step_def split: sum.splits)

text \<open>
  C9. For two non-empty lists, the list that \<open>cross_reference_transactions\<close> returns is
  sorted in non-decreasing lexicographic order of the \<open>Transaction Date\<close> strings (an
  absent date counting as the empty string); this is the order of the strings, not of the
  calendar. The function does return whenever no amount it compares is \<open>None\<close>.
\<close>

theorem cross_reference_sorted:
  assumes "A \<noteq> []" "B \<noteq> []"
  shows "(\<forall>out self'. cross_reference_transactions self A B ma mb = Inr (out, self')
            \<longrightarrow> sorted (map date_of out))
       \<and> ((\<forall>t \<in> set A \<union> set B. match_amount t \<noteq> PyNone) \<longrightarrow>
            (\<exists>out self'. cross_reference_transactions self A B ma mb = Inr (out, self')
                        \<and> sorted (map date_of out)))"
proof -
  have s: "\<And>out self'. cross_reference_transactions self A B ma mb = Inr (out, self')
            \<Longrightarrow> sorted (map date_of out)"
  proof -
    fix out self' assume r: "cross_reference_transactions self A B ma mb = Inr (out, self')"
    from cross_reference_unfold [OF assms r] obtain steps M where
      "pass1 self ma mb B {} A = Inr (steps, M, self')" and
      "out = sort_key date_of (map fst steps @ pass2 mb B M)" by blast
    then show "sorted (map date_of out)" by simp
  qed
  have "(\<forall>t \<in> set A \<union> set B. match_amount t \<noteq> PyNone) \<longrightarrow>
            (\<exists>out self'. cross_reference_transactions self A B ma mb = Inr (out, self')
                        \<and> sorted (map date_of out))"
  proof
    assume n: "\<forall>t \<in> set A \<union> set B. match_amount t \<noteq> PyNone"
    then have "\<forall>t \<in> set A. match_amount t \<noteq> PyNone" "\<forall>t \<in> set B. match_amount t \<noteq> PyNone"
      by auto
    from cross_reference_returns [OF this, of self ma mb] s
    show "\<exists>out self'. cross_reference_transactions self A B ma mb = Inr (out, self')
                        \<and> sorted (map date_of out)" by blast
  qed
  with s show ?thesis by blast
qed

text \<open>
  The merge on the calls that return. Let both lists be non-empty and let
  \<open>cross_reference_transactions\<close> return. When the
  loop reaches element \<open>i\<close> of the first list (with \<open>M_i\<close> the entries of the second list
  matched so far), and entry \<open>j\<close> of the second list is the first one not yet matched that
  has the same \<open>Transaction Date\<close> string and an amount differing by less than 0.02 (by
  the test \<open>abs(a - b) < 0.02\<close> of the source on the two floats, \<open>amounts_close\<close>), then
  this pair gives exactly one record of the output. The output is a permutation of one
  record per element of the first list (that element tagged as unique, or merged) and of
  the entries of the second list that no step merged, tagged as unique; step \<open>i\<close> is the
  only step merged with \<open>j\<close>, so entry \<open>j\<close> is not among the entries emitted on their own;
  and the record of step \<open>i\<close> is element \<open>i\<close> tagged as matched, with \<open>Place_Original\<close> the
  original description of the two that scores higher (the first list's on a tie) and
  \<open>Place\<close> the result of cleaning that original again.
\<close>

lemma cross_reference_merges_match:
  assumes ne: "A \<noteq> []" "B \<noteq> []"
    and run: "cross_reference_transactions self A B ma mb = Inr (out, self')"
    and i: "i < length A"
    and before: "pass1 self ma mb B {} (take i A) = Inr (steps_i, M_i, self_i)"
    and dates: "Transaction_Date (A ! i) = Some d" "Transaction_Date (B ! j) = Some d"
    and amounts: "match_amount (A ! i) = PyFloat x" "match_amount (B ! j) = PyFloat y"
                 "amounts_close x y"
    and j: "j < length B" "j \<notin> M_i"
    and first: "\<forall>k < j. k \<notin> M_i \<longrightarrow>
                  \<not> (date_of (B ! k) = d \<and> (\<exists>z. match_amount (B ! k) = PyFloat z \<and> amounts_close x z))"
  shows "\<exists>steps.
           list_all2 (emitted_for ma mb) A steps
         \<and> distinct (matched_indices (map snd steps))
         \<and> mset out = mset (map fst steps)
              + mset (map (\<lambda>k. tag_only mb (B ! k))
                       (filter (\<lambda>k. k \<notin> set (matched_indices (map snd steps))) [0..<length B]))
         \<and> j \<in> set (matched_indices (map snd steps))
         \<and> (\<forall>i' < length A. snd (steps ! i') = Some j \<longleftrightarrow> i' = i)
         \<and> fst (steps ! i) \<in> set out
         \<and> fst (steps ! i) =
             (A ! i)\<lparr>Place := Some (fst (clean_merchant_name_with_context self_i
                                      (if score_description (original_of (A ! i)) (original_of (A ! i))
                                          \<ge> score_description (original_of (B ! j)) (original_of (B ! j))
                                       then original_of (A ! i) else original_of (B ! j))
                                      (PyFloat x) (Some d))),
                     Place_Original := Some (if score_description (original_of (A ! i)) (original_of (A ! i))
                                                \<ge> score_description (original_of (B ! j)) (original_of (B ! j))
                                             then original_of (A ! i) else original_of (B ! j)),
                     extraction_method := Some (matched_tag ma mb)\<rparr>"
proof -
  from cross_reference_unfold [OF ne run] obtain steps M where
    p: "pass1 self ma mb B {} A = Inr (steps, M, self')" and
    out: "out = sort_key date_of (map fst steps @ pass2 mb B M)" by blast
  have len: "length steps = length A" by (rule pass1_length [OF p])
  have leni: "length steps_i = i" using pass1_length [OF before] i by simp
  have split: "A = take i A @ (A ! i) # drop (Suc i) A" using id_take_nth_drop [OF i] .
  from p have "pass1 self ma mb B {} (take i A @ (A ! i) # drop (Suc i) A) = Inr (steps, M, self')"
    using split by simp
  then obtain s2 where
    tail: "pass1 self_i ma mb B M_i ((A ! i) # drop (Suc i) A) = Inr (s2, M, self')" and
    st: "steps = steps_i @ s2"
    unfolding pass1_append before by (auto split: sum.splits)
  from tail obtain r idx self1 s3 where
    step: "pass1_step self_i ma mb B M_i (A ! i) = Inr (r, idx, self1)" and
    rest: "pass1 self1 ma mb B (case idx of Some k \<Rightarrow> insert k M_i | None \<Rightarrow> M_i) (drop (Suc i) A)
             = Inr (s3, M, self')" and
    s2: "s2 = (r, idx) # s3"
    by (auto split: sum.splits)
  have nth: "steps ! i = (r, idx)" using st s2 leni by (simp add: nth_append)
  have da: "date_of (A ! i) = d" and db: "date_of (B ! j) = d"
    using dates by (simp_all add: date_of_def)
  from pass1_step_find [OF step] obtain found where
    fm: "find_match d (PyFloat x) M_i (enumerate_from0 B) = Inr found"
    unfolding da amounts by blast
  have f1: "\<forall>q < j. fst (enumerate_from0 B ! q) \<notin> M_i \<longrightarrow>
           \<not> (date_of (snd (enumerate_from0 B ! q)) = d
              \<and> (\<exists>z. match_amount (snd (enumerate_from0 B ! q)) = PyFloat z \<and> amounts_close x z))"
    using first j(1) by (simp add: enumerate_from0_conv)
  have found: "found = Some (j, B ! j)"
    by (rule find_match_first [OF fm _ _ j(2) db [symmetric] amounts(2,3) f1])
       (use j(1) in \<open>simp_all add: enumerate_from0_conv\<close>)
  have truthy: "tx_truthy (B ! j)" using dates(2) by (simp add: tx_truthy_def)
  let ?sel = "if score_description (original_of (A ! i)) (original_of (A ! i))
                 \<ge> score_description (original_of (B ! j)) (original_of (B ! j))
              then original_of (A ! i) else original_of (B ! j)"
  have idx: "idx = Some j"
    and r: "r = (A ! i)\<lparr>Place := Some (fst (clean_merchant_name_with_context self_i ?sel (PyFloat x) (Some d))),
                        Place_Original := Some ?sel,
                        extraction_method := Some (matched_tag ma mb)\<rparr>"
    using step unfolding pass1_step_def da amounts fm found
    by (auto simp: truthy merge_matched_def Let_def select_best_description_def da amounts
                   matched_tag_def split: prod.splits)
  from pass1_structure [OF rest] idx have jM: "j \<in> M" by auto
  from pass1_structure [OF p] have dist: "distinct (matched_indices (map snd steps))"
    and em: "list_all2 (emitted_for ma mb) A steps"
    and M: "M = set (matched_indices (map snd steps))" by simp_all
  have once: "\<forall>i' < length A. snd (steps ! i') = Some j \<longleftrightarrow> i' = i"
  proof (intro allI impI iffI)
    fix i' assume i': "i' < length A" and s: "snd (steps ! i') = Some j"
    show "i' = i"
      by (rule matched_once [OF dist, of i' i j]) (use i i' s nth idx len in simp_all)
  next
    fix i' assume "i' = i"
    then show "snd (steps ! i') = Some j" using nth idx by simp
  qed
  have mem: "fst (steps ! i) \<in> set out"
    unfolding out using i len by (auto intro!: image_eqI [of _ fst "steps ! i"])
  have ms: "mset out = mset (map fst steps)
              + mset (map (\<lambda>k. tag_only mb (B ! k)) (filter (\<lambda>k. k \<notin> M) [0..<length B]))"
    unfolding out by (simp add: pass2_conv)
  show ?thesis
    using em dist ms jM once mem nth r unfolding M by (intro exI [of _ steps]) simp
qed

subsection \<open>The reconciler on concrete lists\<close>

theorem cross_reference_sorted_witness:
  "[sample_tx ''12/31/2025'' ''Walmart'' (round64 (1999 / 100))] \<noteq> []
   \<and> [sample_tx ''01/15/2026'' ''Target'' 12] \<noteq> []
   \<and> match_amount (sample_tx ''12/31/2025'' ''Walmart'' (round64 (1999 / 100))) \<noteq> PyNone
   \<and> match_amount (sample_tx ''01/15/2026'' ''Target'' 12) \<noteq> PyNone
   \<and> (\<exists>out self'.
          cross_reference_transactions offline_parser
            [sample_tx ''12/31/2025'' ''Walmart'' (round64 (1999 / 100))]
            [sample_tx ''01/15/2026'' ''Target'' 12] ''pdfplumber'' ''OCR'' = Inr (out, self')
        \<and> sorted (map date_of out))
   \<and> map_sum id (\<lambda>r. map date_of (fst r))
         (cross_reference_transactions offline_parser
            [sample_tx ''12/31/2025'' ''Walmart'' (round64 (1999 / 100))]
            [sample_tx ''01/15/2026'' ''Target'' 12] ''pdfplumber'' ''OCR'')
       = Inr [''01/15/2026'', ''12/31/2025'']"
proof -
  let ?A = "[sample_tx ''12/31/2025'' ''Walmart'' (round64 (1999 / 100))]"
  let ?B = "[sample_tx ''01/15/2026'' ''Target'' 12]"
  have ne: "?A \<noteq> []" "?B \<noteq> []" by simp_all
  have n: "\<forall>t \<in> set ?A \<union> set ?B. match_amount t \<noteq> PyNone" by simp
  have e: "\<exists>out self'. cross_reference_transactions offline_parser ?A ?B ''pdfplumber'' ''OCR''
             = Inr (out, self') \<and> sorted (map date_of out)"
    using cross_reference_sorted [OF ne, of offline_parser "''pdfplumber''" "''OCR''"] n by blast
  have d: "map_sum id (\<lambda>r. map date_of (fst r))
             (cross_reference_transactions offline_parser ?A ?B ''pdfplumber'' ''OCR'')
           = Inr [''01/15/2026'', ''12/31/2025'']"
    by code_simp
  show ?thesis using ne e d by simp
qed

theorem cross_reference_accounts_witness:
  "\<exists>out self'.
      cross_reference_transactions offline_parser
        [sample_tx ''03/01/2025'' ''Walmart'' (round64 (1999 / 100))]
        [sample_tx ''01/15/2025'' ''Target'' 12] ''pdfplumber'' ''OCR'' = Inr (out, self')
    \<and> length out \<le> 2"
proof -
  let ?A = "[sample_tx ''03/01/2025'' ''Walmart'' (round64 (1999 / 100))]"
  let ?B = "[sample_tx ''01/15/2025'' ''Target'' 12]"
  have "\<exists>out self'. cross_reference_transactions offline_parser ?A ?B ''pdfplumber'' ''OCR'' = Inr (out, self')"
    by (rule cross_reference_returns) simp_all
  then obtain out self' where
    r: "cross_reference_transactions offline_parser ?A ?B ''pdfplumber'' ''OCR'' = Inr (out, self')"
    by blast
  have ne: "?A \<noteq> []" "?B \<noteq> []" by simp_all
  have "\<exists>steps :: (tx \<times> nat option) list. length out = length ?A + length ?B - length (matched_indices (map snd steps))"
    using cross_reference_accounts [OF ne r] by blast
  then have "length out \<le> 2" by auto
  with r show ?thesis by blast
qed

text \<open>
  With an empty first list the second list is returned as it is: its records carry no tag
  of the method they are unique to.
\<close>

theorem cross_reference_empty_untagged_counterexample:
  "cross_reference_transactions offline_parser [] [sample_tx ''03/01/2025'' ''Walmart'' (round64 (1999 / 100))]
      ''pdfplumber'' ''OCR''
     = Inr ([sample_tx ''03/01/2025'' ''Walmart'' (round64 (1999 / 100))], offline_parser)
   \<and> extraction_method (sample_tx ''03/01/2025'' ''Walmart'' (round64 (1999 / 100))) = None
   \<and> sample_tx ''03/01/2025'' ''Walmart'' (round64 (1999 / 100))
       \<noteq> tag_only ''OCR'' (sample_tx ''03/01/2025'' ''Walmart'' (round64 (1999 / 100)))"
  by (simp add: cross_reference_transactions_def sample_tx_def empty_tx_def tag_only_def)

text \<open>
  Two extractions of one purchase, a cent apart: the record of the first list is kept,
  with the description of the second, which scores higher (105 against 45).
\<close>

lemma cross_reference_merges_match_example:
  "\<exists>out self'.
      cross_reference_transactions offline_parser
        [sample_tx ''03/01/2025'' ''POS PURCHASE WALMART'' (round64 (1999 / 100))]
        [sample_tx ''03/01/2025'' ''Walmart'' 20] ''pdfplumber'' ''OCR'' = Inr (out, self')
    \<and> (\<exists>r. out = [r]
           \<and> Place_Original r = Some ''Walmart''
           \<and> Amount r = Some (PyFloat (round64 (1999 / 100)))
           \<and> extraction_method r = Some ''pdfplumber (matched with OCR)'')"
proof -
  let ?a = "sample_tx ''03/01/2025'' ''POS PURCHASE WALMART'' (round64 (1999 / 100))"
  let ?b = "sample_tx ''03/01/2025'' ''Walmart'' 20"
  have "\<exists>out self'. cross_reference_transactions offline_parser [?a] [?b] ''pdfplumber'' ''OCR'' = Inr (out, self')"
    by (rule cross_reference_returns) simp_all
  then obtain out self' where
    r: "cross_reference_transactions offline_parser [?a] [?b] ''pdfplumber'' ''OCR'' = Inr (out, self')"
    by blast
  have before: "pass1 offline_parser ''pdfplumber'' ''OCR'' [?b] {} (take 0 [?a]) = Inr ([], {}, offline_parser)"
    by simp
  have da: "Transaction_Date ([?a] ! 0) = Some ''03/01/2025''"
    and db: "Transaction_Date ([?b] ! 0) = Some ''03/01/2025''"
    by (simp_all add: sample_tx_def)
  have ma: "match_amount ([?a] ! 0) = PyFloat (round64 (1999 / 100))"
    and mb: "match_amount ([?b] ! 0) = PyFloat 20" by simp_all
  have cl: "amounts_close (round64 (1999 / 100)) 20" by code_simp
  have oa: "original_of ([?a] ! 0) = ''POS PURCHASE WALMART''"
    and ob: "original_of ([?b] ! 0) = ''Walmart''"
    by (simp_all add: original_of_def sample_tx_def)
  have sc: "\<not> score_description ''POS PURCHASE WALMART'' ''POS PURCHASE WALMART''
              \<ge> score_description ''Walmart'' ''Walmart''"
    by code_simp
  have ne: "[?a] \<noteq> []" "[?b] \<noteq> []" by simp_all
  have i0: "0 < length [?a]" and j0: "0 < length [?b]" and jn: "(0::nat) \<notin> {}" by simp_all
  have first: "\<forall>k < (0::nat). k \<notin> {} \<longrightarrow>
        \<not> (date_of ([?b] ! k) = ''03/01/2025''
           \<and> (\<exists>z. match_amount ([?b] ! k) = PyFloat z \<and> amounts_close (round64 (1999 / 100)) z))"
    by simp
  from cross_reference_merges_match [OF ne r i0 before da db ma mb cl j0 jn first]
  obtain steps :: "(tx \<times> nat option) list" where
    em: "list_all2 (emitted_for ''pdfplumber'' ''OCR'') [?a] steps" and
    ms: "mset out = mset (map fst steps)
           + mset (map (\<lambda>k. tag_only ''OCR'' ([?b] ! k))
                    (filter (\<lambda>k. k \<notin> set (matched_indices (map snd steps))) [0..<length [?b]]))" and
    jM: "0 \<in> set (matched_indices (map snd steps))" and
    rec: "fst (steps ! 0) =
             ([?a] ! 0)\<lparr>Place := Some (fst (clean_merchant_name_with_context offline_parser
                                      (if score_description (original_of ([?a] ! 0)) (original_of ([?a] ! 0))
                                          \<ge> score_description (original_of ([?b] ! 0)) (original_of ([?b] ! 0))
                                       then original_of ([?a] ! 0) else original_of ([?b] ! 0))
                                      (PyFloat (round64 (1999 / 100))) (Some ''03/01/2025''))),
                     Place_Original := Some (if score_description (original_of ([?a] ! 0)) (original_of ([?a] ! 0))
                                                \<ge> score_description (original_of ([?b] ! 0)) (original_of ([?b] ! 0))
                                             then original_of ([?a] ! 0) else original_of ([?b] ! 0)),
                     extraction_method := Some (matched_tag ''pdfplumber'' ''OCR'')\<rparr>"
    by blast
  from em have "length steps = length [?a]" by (auto dest: list_all2_lengthD)
  then obtain s where steps: "steps = [s]" by (cases steps) auto
  from ms jM steps have "mset out = {#fst s#}" by simp
  then have out: "out = [fst s]" by (metis mset_single_iff_right)
  have po: "Place_Original (fst s) = Some ''Walmart''"
    using rec steps unfolding oa ob using sc by simp
  have am: "Amount (fst s) = Some (PyFloat (round64 (1999 / 100)))"
    using rec steps by (simp add: sample_tx_def)
  have em: "extraction_method (fst s) = Some ''pdfplumber (matched with OCR)''"
    using rec steps by (simp add: matched_tag_def)
  show ?thesis using r out po am em by blast
qed

text \<open>
  The example of the specification: both descriptions score 105, and the tie keeps the
  description of the first list.
\<close>

lemma cross_reference_spec_example:
  "map_sum id (\<lambda>r. map (\<lambda>t. (Place_Original t, extraction_method t)) (fst r))
     (cross_reference_transactions offline_parser
        [sample_tx ''03/01/2025'' ''WAL-MART ASDF123'' (round64 (1999 / 100))]
        [sample_tx ''03/01/2025'' ''Walmart'' (round64 (1999 / 100))] ''pdfplumber'' ''OCR'')
   = Inr [(Some ''WAL-MART ASDF123'', Some ''pdfplumber (matched with OCR)'')]"
  by code_simp

text \<open>
  C1. For two non-empty lists, a transaction of the first list with a not yet matched
  transaction of the second list of the same date and an amount closer than 0.02 should
  give exactly one merged record of the output. The first list below holds such a
  transaction (it matches the first entry of the second list), and a row as the parser
  builds it from a line with three amounts of which the first is \<open>0.00\<close>: its \<open>Debits\<close>
  holds \<open>None\<close>, which \<open>get('Amount', get('Debits', ...))\<close> returns. When that row meets
  the row of the same date in the second list, \<open>float(None)\<close> raises \<open>TypeError\<close>, and the
  call returns no output at all.
\<close>

theorem cross_reference_none_amount_raises:
  "fst (parse_transactions offline_parser 2026 ''03/02/2025 DEPOSIT 0.00 50.00 95.00'' None)
     = [deposit_row]
   \<and> match_amount deposit_row = PyNone
   \<and> amounts_close (round64 (1999 / 100)) (round64 (1999 / 100))
   \<and> map_sum id fst
        (cross_reference_transactions offline_parser
           [sample_tx ''03/01/2025'' ''WAL-MART ASDF123'' (round64 (1999 / 100)), deposit_row]
           [sample_tx ''03/01/2025'' ''Walmart'' (round64 (1999 / 100)), deposit_row]
           ''pdfplumber'' ''OCR'')
     = Inl TypeError"
  by code_simp

section \<open>The normaliser and the parser on the examples of the specification\<close>

lemma clean_merchant_name_sqsp_fields:
  "clean_merchant_name
      \<lparr>income_keywords = ik, transfer_keywords = tk, payment_apps = pa, llm_available = la,
        merchant_cache = c, llm_merchant_answer = f, llm_classify_answer = g\<rparr>
      ''SQSP* INV165866692'' = ''Squarespace''"
  by code_simp

lemma clean_merchant_name_sqsp: "clean_merchant_name self ''SQSP* INV165866692'' = ''Squarespace''"
  by (cases self) (simp add: clean_merchant_name_sqsp_fields)

lemma sqsp_cache_key: "strip (upper ''SQSP* INV165866692'') = ''SQSP* INV165866692''"
  by code_simp

text \<open>
  For the raw name \<open>SQSP* INV165866692\<close>, not in the merchant cache, the pattern phase
  \<open>_clean_merchant_name\<close> returns exactly \<open>Squarespace\<close>, whatever the parser's fields are
  (the processor table returns at once, without a model call), and the entry point returns
  \<open>Squarespace\<close> when the language-model service is not available.
\<close>

lemma clean_squarespace_offline:
  assumes "merchant_cache self ''SQSP* INV165866692'' = None"
  shows "clean_merchant_name self ''SQSP* INV165866692'' = ''Squarespace''
       \<and> (\<not> llm_available self \<longrightarrow>
            fst (clean_merchant_name_with_context self ''SQSP* INV165866692'' amount date) = ''Squarespace'')"
  using assms
  by (simp add: clean_merchant_name_with_context_def Let_def sqsp_cache_key clean_merchant_name_sqsp)

lemma clean_squarespace_offline_example:
  "fst (clean_merchant_name_with_context offline_parser ''SQSP* INV165866692''
          (PyFloat 50) (Some ''01/15/2025'')) = ''Squarespace''"
proof -
  have c: "merchant_cache offline_parser ''SQSP* INV165866692'' = None"
    by (simp add: offline_parser_def)
  have l: "\<not> llm_available offline_parser" by (simp add: offline_parser_def)
  show ?thesis
    using clean_squarespace_offline [OF c, of "PyFloat 50" "Some ''01/15/2025''"] l by blast
qed

text \<open>
  With the service available, the second phase of the entry point passes the finished
  name \<open>Squarespace\<close> of the pattern phase on to the model, as it does with every name of
  more than 3 characters, and the answer of the model replaces it.
\<close>

lemma clean_squarespace_second_phase:
  assumes "merchant_cache self ''SQSP* INV165866692'' = None" "llm_available self"
  shows "fst (clean_merchant_name_with_context self ''SQSP* INV165866692'' amount date) =
              (if llm_merchant_answer self ''Squarespace'' amount date \<noteq> []
                  \<and> llm_merchant_answer self ''Squarespace'' amount date \<noteq> ''Squarespace''
                  \<and> 3 \<le> length (llm_merchant_answer self ''Squarespace'' amount date)
                  \<and> 3 \<le> length (normalize_llm_output (llm_merchant_answer self ''Squarespace'' amount date))
               then normalize_llm_output (llm_merchant_answer self ''Squarespace'' amount date)
               else ''Squarespace'')"
  using assms
  by (simp add: clean_merchant_name_with_context_def Let_def sqsp_cache_key clean_merchant_name_sqsp
                llm_clean_merchant_name_def)

text \<open>
  C2. For the raw name \<open>SQSP* INV165866692\<close>, not in the merchant cache, the entry point
  \<open>_clean_merchant_name_with_context\<close> should return exactly \<open>Squarespace\<close> whether or not the
  language-model service is available. The pattern phase does return \<open>Squarespace\<close> at once
  (its comment reads \<open>Return immediately, no further processing\<close>). With the service
  available and the three prompts answered \<open>Square\<close> (an answer that the sanitiser
  \<open>_clean_llm_response\<close> keeps and the vote returns), the entry point returns \<open>Square\<close>.
\<close>

theorem clean_squarespace_model_answer:
  "merchant_cache (offline_parser\<lparr>llm_available := True,
                                  llm_merchant_answer := (\<lambda>merchant amount date. ''Square'')\<rparr>)
      (strip (upper ''SQSP* INV165866692'')) = None
   \<and> clean_merchant_name (offline_parser\<lparr>llm_available := True,
                                  llm_merchant_answer := (\<lambda>merchant amount date. ''Square'')\<rparr>)
        ''SQSP* INV165866692'' = ''Squarespace''
   \<and> fst (clean_merchant_name_with_context
            (offline_parser\<lparr>llm_available := True,
                             llm_merchant_answer := (\<lambda>merchant amount date. ''Square'')\<rparr>)
            ''SQSP* INV165866692'' (PyFloat 50) (Some ''01/15/2025'')) = ''Square''
   \<and> ''Square'' \<noteq> ''Squarespace''"
  by code_simp





lemma parse_transactions_walmart_continuation:
  "map Place (fst (parse_transactions offline_parser 2026
                     (''01/15/2025 WALMART #4352 $45.23'' @ [CHR 0x0A] @ ''Thank you'') None))
     = [Some ''Walmart Thank you'']"
  by code_simp

end
